theory Spec2Isabelle
  imports
    Main
    "HOL-Library.Char_ord"
    "HOL-Library.List_Lexorder"
    "HOL-Library.Multiset"
    "HOL-Library.Sublist"
begin

section \<open>Python strings and integers\<close>

text \<open>
  A Python \<open>str\<close> is modelled as a \<^typ>\<open>string\<close>: a list of code points below 256.
  The predicates below follow Python's Unicode tables on that range. Python's integers are
  unbounded and are modelled as \<^typ>\<open>int\<close>. The conversions between integers and decimal
  strings raise \<open>ValueError\<close> beyond \<open>sys.int_info.default_max_str_digits\<close> digits; the
  program leaves that limit at the interpreter's default.
\<close>

datatype error = ValueError | TypeError | AttributeError | IndexError | RuntimeError

definition ebind :: "error + 'a \<Rightarrow> ('a \<Rightarrow> error + 'b) \<Rightarrow> error + 'b" where
  "ebind m f = (case m of Inl e \<Rightarrow> Inl e | Inr x \<Rightarrow> f x)"

fun map_err :: "('a \<Rightarrow> error + 'b) \<Rightarrow> 'a list \<Rightarrow> error + 'b list" where
  "map_err f [] = Inr []"
| "map_err f (x # xs) =
     (case f x of
        Inl e \<Rightarrow> Inl e
      | Inr y \<Rightarrow> (case map_err f xs of Inl e \<Rightarrow> Inl e | Inr ys \<Rightarrow> Inr (y # ys)))"

definition whitespace :: "char list" where
  "whitespace =
     [CHR 0x09, CHR 0x0A, CHR 0x0B, CHR 0x0C, CHR 0x0D,
      CHR 0x1C, CHR 0x1D, CHR 0x1E, CHR 0x1F, CHR 0x20, CHR 0x85, CHR 0xA0]"

definition is_space :: "char \<Rightarrow> bool" where
  "is_space c = (c \<in> set whitespace)"

definition strip :: "string \<Rightarrow> string" where
  "strip s = rev (dropWhile is_space (rev (dropWhile is_space s)))"

definition startswith :: "string \<Rightarrow> string \<Rightarrow> bool" where
  "startswith s p = prefix p s"

fun split_on :: "char \<Rightarrow> string \<Rightarrow> string list" where
  "split_on sep [] = [[]]"
| "split_on sep (c # cs) =
     (if c = sep then [] # split_on sep cs
      else (case split_on sep cs of [] \<Rightarrow> [[c]] | p # ps \<Rightarrow> (c # p) # ps))"

fun join :: "string \<Rightarrow> string list \<Rightarrow> string" where
  "join sep [] = []"
| "join sep [x] = x"
| "join sep (x # y # ys) = x @ sep @ join sep (y # ys)"

definition is_digit :: "char \<Rightarrow> bool" where
  "is_digit c = (CHR ''0'' \<le> c \<and> c \<le> CHR ''9'')"

definition digit_val :: "char \<Rightarrow> int" where
  "digit_val c = int (of_char c) - 48"

text \<open>The digits of an integer literal: single underscores may separate digits.\<close>

fun digits_ok :: "string \<Rightarrow> bool" where
  "digits_ok [] = False"
| "digits_ok [c] = is_digit c"
| "digits_ok (c # d # cs) =
     (is_digit c \<and> (if d = CHR ''_'' then digits_ok cs else digits_ok (d # cs)))"

definition digits_value :: "string \<Rightarrow> int" where
  "digits_value ds = foldl (\<lambda>acc c. 10 * acc + digit_val c) 0 (filter (\<lambda>c. c \<noteq> CHR ''_'') ds)"

definition max_str_digits :: nat where
  "max_str_digits = 4300"

text \<open>
  The white space that \<open>int\<close> skips at both ends of a string. It is not the set of
  \<open>str.strip\<close>: the conversion maps the white space above U+007F to a blank and then
  skips the C white space only, so the separators U+001C to U+001F stay and are refused.
\<close>

definition int_whitespace :: "char list" where
  "int_whitespace =
     [CHR 0x09, CHR 0x0A, CHR 0x0B, CHR 0x0C, CHR 0x0D, CHR 0x20, CHR 0x85, CHR 0xA0]"

definition is_int_space :: "char \<Rightarrow> bool" where
  "is_int_space c = (c \<in> set int_whitespace)"

text \<open>
  The digits of a literal that \<open>int\<close> converts: well-formed, and no more digit
  characters than the limit; underscores do not count, leading zeros do.
\<close>

definition int_digits_ok :: "string \<Rightarrow> bool" where
  "int_digits_ok ds =
     (digits_ok ds \<and> length (filter (\<lambda>c. c \<noteq> CHR ''_'') ds) \<le> max_str_digits)"

text \<open>\<open>int(s)\<close> on a string: surrounding whitespace, an optional sign, decimal digits.\<close>

definition py_int :: "string \<Rightarrow> error + int" where
  "py_int s =
     (case rev (dropWhile is_int_space (rev (dropWhile is_int_space s))) of
        [] \<Rightarrow> Inl ValueError
      | c # cs \<Rightarrow>
          (if c = CHR ''-''
           then (if int_digits_ok cs then Inr (- digits_value cs) else Inl ValueError)
           else if c = CHR ''+''
           then (if int_digits_ok cs then Inr (digits_value cs) else Inl ValueError)
           else (if int_digits_ok (c # cs) then Inr (digits_value (c # cs))
                 else Inl ValueError)))"

fun str_nat :: "nat \<Rightarrow> string" where
  "str_nat n =
     (if n < 10 then [''0123456789'' ! n]
      else str_nat (n div 10) @ [''0123456789'' ! (n mod 10)])"

declare str_nat.simps [simp del]

definition str_int :: "int \<Rightarrow> string" where
  "str_int i = (if i < 0 then CHR ''-'' # str_nat (nat (- i)) else str_nat (nat i))"

text \<open>The number of decimal digits of an integer; the sign does not count.\<close>

definition int_digits :: "int \<Rightarrow> nat" where
  "int_digits i = length (str_nat (nat \<bar>i\<bar>))"

text \<open>\<open>str(i)\<close>, and \<open>{i}\<close> in a formatted string, for an integer \<open>i\<close>.\<close>

definition py_str_int :: "int \<Rightarrow> error + string" where
  "py_str_int i = (if int_digits i > max_str_digits then Inl ValueError else Inr (str_int i))"

section \<open>ConstraintTranslator\<close>

function pad3 :: "int list \<Rightarrow> int list" where
  "pad3 parts = (if length parts < 3 then pad3 (parts @ [0]) else parts)"
  by pat_completeness auto
termination
  by (relation "measure (\<lambda>parts. 3 - length parts)") auto

declare pad3.simps [simp del]

definition caret_to_range :: "string \<Rightarrow> error + string" where
  "caret_to_range ver =
     (if \<not> startswith ver ''^'' then Inr ver
      else
        (case map_err py_int (split_on CHR ''.'' (drop 1 ver)) of
           Inl e \<Rightarrow> Inl e
         | Inr parts \<Rightarrow>
             (case take 3 (pad3 parts) of
                [maj, minor, patch] \<Rightarrow>
                  ebind (if maj > 0
                         then ebind (py_str_int (maj + 1)) (\<lambda>u. Inr (u @ ''.0.0''))
                         else if minor > 0
                         then ebind (py_str_int (minor + 1)) (\<lambda>u. Inr (''0.'' @ u @ ''.0''))
                         else ebind (py_str_int (patch + 1)) (\<lambda>u. Inr (''0.0.'' @ u)))
                    (\<lambda>upper.
                  ebind (py_str_int maj) (\<lambda>a.
                  ebind (py_str_int minor) (\<lambda>b.
                  ebind (py_str_int patch) (\<lambda>c.
                    Inr (''>='' @ a @ ''.'' @ b @ ''.'' @ c @ '',<'' @ upper)))))
              | _ \<Rightarrow> Inl ValueError)))"

definition tilde_to_range :: "string \<Rightarrow> error + string" where
  "tilde_to_range ver =
     (if \<not> startswith ver ''~'' then Inr ver
      else
        (case split_on CHR ''.'' (drop 1 ver) of
           [] \<Rightarrow> Inl IndexError
         | [p0] \<Rightarrow>
             (let lower = p0 @ ''.0'' in
              ebind (py_int p0) (\<lambda>x.
              ebind (py_str_int (x + 1)) (\<lambda>u.
                Inr (''>='' @ lower @ '',<'' @ u @ ''.0''))))
         | [p0, p1] \<Rightarrow>
             ebind (py_int p0) (\<lambda>major.
             ebind (py_int p1) (\<lambda>minor.
             ebind (py_str_int major) (\<lambda>a.
             ebind (py_str_int minor) (\<lambda>b.
             ebind (py_str_int (minor + 1)) (\<lambda>u.
               Inr (''>='' @ a @ ''.'' @ b @ '',<'' @ a @ ''.'' @ u))))))
         | p0 # p1 # p2 # _ \<Rightarrow>
             ebind (py_int p0) (\<lambda>major.
             ebind (py_int p1) (\<lambda>minor.
             ebind (py_int p2) (\<lambda>patch.
             ebind (py_str_int major) (\<lambda>a.
             ebind (py_str_int minor) (\<lambda>b.
             ebind (py_str_int patch) (\<lambda>c.
             ebind (py_str_int (minor + 1)) (\<lambda>u.
               Inr (''>='' @ a @ ''.'' @ b @ ''.'' @ c
                    @ '',<'' @ a @ ''.'' @ u @ ''.0''))))))))))"

definition normalize_version_constraint :: "string \<Rightarrow> error + string" where
  "normalize_version_constraint ver0 =
     (let ver = strip ver0 in
      if startswith ver ''^'' then caret_to_range ver
      else if startswith ver ''~'' then tilde_to_range ver
      else Inr ver)"

section \<open>Parsed documents\<close>

text \<open>
  The value of a parsed document: a string, an integer, a boolean, an array or a table.
  A table keeps its entries in document order, as Python's \<open>dict\<close> does. Floats and
  date-times are left out of the model, and an integer of the document is taken to be
  within the limit of the conversion to a string.
\<close>

datatype toml =
    TStr string
  | TInt int
  | TBool bool
  | TList "toml list"
  | TDict "(string \<times> toml) list"

text \<open>
  What the program takes from the platform: \<open>expanduser env p\<close> is the text of
  \<open>Path(p).expanduser()\<close>, \<open>absolute env p\<close> the text of the path itself when it is
  absolute and of \<open>(Path.cwd() / p).resolve()\<close> otherwise (both can raise), and
  \<open>repr env v\<close> is \<open>str(v)\<close> for an array or a table.
\<close>

record env =
  expanduser :: "string \<Rightarrow> error + string"
  absolute :: "string \<Rightarrow> error + string"
  repr :: "toml \<Rightarrow> string"

fun truthy :: "toml \<Rightarrow> bool" where
  "truthy (TStr s) = (s \<noteq> [])"
| "truthy (TInt i) = (i \<noteq> 0)"
| "truthy (TBool b) = b"
| "truthy (TList xs) = (xs \<noteq> [])"
| "truthy (TDict kvs) = (kvs \<noteq> [])"

text \<open>The result of \<open>d.get(k)\<close> is a \<^typ>\<open>toml option\<close>; \<open>None\<close> is false.\<close>

fun truthy_opt :: "toml option \<Rightarrow> bool" where
  "truthy_opt None = False"
| "truthy_opt (Some v) = truthy v"

definition py_or :: "toml option \<Rightarrow> toml option \<Rightarrow> toml option" where
  "py_or a b = (if truthy_opt a then a else b)"

fun py_str :: "env \<Rightarrow> toml \<Rightarrow> string" where
  "py_str env (TStr s) = s"
| "py_str env (TInt i) = str_int i"
| "py_str env (TBool b) = (if b then ''True'' else ''False'')"
| "py_str env v = repr env v"

text \<open>Iterating a value: a string yields its characters, a table its keys.\<close>

fun py_iter :: "toml \<Rightarrow> error + toml list" where
  "py_iter (TList xs) = Inr xs"
| "py_iter (TStr s) = Inr (map (\<lambda>c. TStr [c]) s)"
| "py_iter (TDict kvs) = Inr (map (\<lambda>kv. TStr (fst kv)) kvs)"
| "py_iter v = Inl TypeError"

definition lower_char :: "char \<Rightarrow> char" where
  "lower_char c =
     (if (CHR ''A'' \<le> c \<and> c \<le> CHR ''Z'')
         \<or> (CHR 0xC0 \<le> c \<and> c \<le> CHR 0xDE \<and> c \<noteq> CHR 0xD7)
      then char_of (of_char c + (32 :: nat)) else c)"

definition lower :: "string \<Rightarrow> string" where
  "lower s = map lower_char s"

section \<open>SpecifierBuilder\<close>

definition editable_warning :: "string \<Rightarrow> string \<Rightarrow> string" where
  "editable_warning name path =
     ''[editable-warning] '' @ name
     @ '' uses develop=true (editable). PEP 621 cannot encode this. ''
     @ ''Use `pip install -e '' @ path @ ''` inside the venv for live edits.''"

text \<open>An element of \<open>','.join(extras)\<close> has to be a string.\<close>

fun join_item :: "toml \<Rightarrow> error + string" where
  "join_item (TStr s) = Inr s"
| "join_item v = Inl TypeError"

fun dep_table_to_pep508 ::
  "env \<Rightarrow> string \<Rightarrow> toml \<Rightarrow> string list \<Rightarrow> error + (string \<times> string list)" where
  "dep_table_to_pep508 env name (TStr s) warnings =
     ebind (normalize_version_constraint s) (\<lambda>constraint.
       Inr (name @ (if constraint \<noteq> [] then '' '' @ constraint else []), warnings))"
| "dep_table_to_pep508 env name (TDict val) warnings =
     (case map_of val ''path'' of
        Some p \<Rightarrow>
          (case p of
             TStr ps \<Rightarrow>
               ebind (expanduser env ps) (\<lambda>path.
                 let warnings' =
                       (if truthy_opt (map_of val ''develop'')
                        then warnings @ [editable_warning name path] else warnings)
                 in ebind (absolute env path) (\<lambda>abs_path.
                      Inr (name @ '' @ file://'' @ abs_path, warnings')))
           | _ \<Rightarrow> Inl TypeError)
      | None \<Rightarrow>
          (case map_of val ''git'' of
             Some url \<Rightarrow>
               (case py_or (py_or (map_of val ''rev'') (map_of val ''tag'')) (map_of val ''branch'') of
                  Some ref \<Rightarrow>
                    Inr (if truthy ref
                         then name @ '' @ git+'' @ py_str env url @ ''@'' @ py_str env ref
                         else name @ '' @ git+'' @ py_str env url, warnings)
                | None \<Rightarrow> Inr (name @ '' @ git+'' @ py_str env url, warnings))
           | None \<Rightarrow>
               (let version = map_of val ''version'';
                    extras = py_or (map_of val ''extras'') (Some (TList []));
                    markers = map_of val ''markers''
                in
                ebind (case extras of
                         Some ex \<Rightarrow>
                           (if truthy ex
                            then ebind (py_iter ex) (\<lambda>xs.
                                 ebind (map_err join_item xs) (\<lambda>ss.
                                   Inr [name @ ''['' @ join '','' ss @ '']'']))
                            else Inr [name])
                       | None \<Rightarrow> Inr [name]) (\<lambda>pieces.
                ebind (case version of
                         Some v \<Rightarrow>
                           (if truthy v
                            then (case v of
                                    TStr vs \<Rightarrow>
                                      ebind (normalize_version_constraint vs) (\<lambda>c.
                                        Inr (pieces @ [c]))
                                  | _ \<Rightarrow> Inl AttributeError)
                            else Inr pieces)
                       | None \<Rightarrow> Inr pieces) (\<lambda>pieces.
                Inr (join '' ''
                       (case markers of
                          Some m \<Rightarrow> (if truthy m then pieces @ [''; '' @ py_str env m] else pieces)
                        | None \<Rightarrow> pieces),
                     warnings))))))"
| "dep_table_to_pep508 env name val warnings = Inr (py_str env val, warnings)"

text \<open>The loop of \<open>poetry_deps_to_pep621\<close> over the items of the table.\<close>

fun deps_loop ::
  "env \<Rightarrow> (string \<times> toml) list \<Rightarrow> string list \<Rightarrow> string list
     \<Rightarrow> error + (string list \<times> string list)" where
  "deps_loop env [] out warnings = Inr (out, warnings)"
| "deps_loop env ((name, val) # items) out warnings =
     (if lower name = ''python'' then deps_loop env items out warnings
      else ebind (dep_table_to_pep508 env name val warnings) (\<lambda>(s, warnings').
             deps_loop env items (out @ [s]) warnings'))"

text \<open>
  \<open>sorted(out, key=str.lower)\<close> is a stable sort on the lower-cased strings, compared
  code point by code point; \<^const>\<open>sort_key\<close> is one.
\<close>

definition poetry_deps_to_pep621 ::
  "env \<Rightarrow> toml \<Rightarrow> string list \<Rightarrow> error + (string list \<times> string list)" where
  "poetry_deps_to_pep621 env deps warnings =
     ebind (if truthy deps
            then (case deps of TDict kvs \<Rightarrow> Inr kvs | _ \<Rightarrow> Inl AttributeError)
            else Inr []) (\<lambda>items.
     ebind (deps_loop env items [] warnings) (\<lambda>(out, warnings').
       Inr (sort_key lower out, warnings')))"

section \<open>AuthorParser\<close>

text \<open>
  The pattern is \<^verbatim>\<open>^\s*(?P<name>.+?)\s*(?:<(?P<email>[^>]+)>)?\s*$\<close>. The functions below run
  it the way the backtracking matcher does, each taking the pattern from one point on and
  trying the alternatives in the matcher's order: a greedy repetition from the longest
  to the shortest, the lazy one from the shortest to the longest.
\<close>

fun first_some :: "'a option list \<Rightarrow> 'a option" where
  "first_some [] = None"
| "first_some (None # xs) = first_some xs"
| "first_some (Some x # xs) = Some x"

text \<open>\<^verbatim>\<open>\s*$\<close>: the end of the string, or the position before a final line break.\<close>

definition match_tail :: "string \<Rightarrow> bool" where
  "match_tail r =
     list_ex (\<lambda>j. list_all is_space (take j r) \<and> (drop j r = [] \<or> drop j r = [CHR 0x0A]))
       (rev [0 ..< Suc (length r)])"

text \<open>\<^verbatim>\<open>(?:<(?P<email>[^>]+)>)?\s*$\<close>: the result is the email group, if it took part.\<close>

definition match_email :: "string \<Rightarrow> string option option" where
  "match_email r =
     (case (case r of
              [] \<Rightarrow> None
            | c # r1 \<Rightarrow>
                (if c = CHR ''<''
                 then first_some
                        (map (\<lambda>n. case drop n r1 of
                                     [] \<Rightarrow> None
                                   | d # r2 \<Rightarrow>
                                       (if d = CHR ''>'' \<and> match_tail r2
                                        then Some (take n r1) else None))
                           (rev [1 ..< Suc (length (takeWhile (\<lambda>x. x \<noteq> CHR ''>'') r1))]))
                 else None)) of
        Some e \<Rightarrow> Some (Some e)
      | None \<Rightarrow> (if match_tail r then Some None else None))"

text \<open>\<^verbatim>\<open>\s*(?:<(?P<email>[^>]+)>)?\s*$\<close>.\<close>

definition match_after_name :: "string \<Rightarrow> string option option" where
  "match_after_name r =
     first_some (map (\<lambda>j. match_email (drop j r))
                   (rev [0 ..< Suc (length (takeWhile is_space r))]))"

text \<open>
  The name group has taken \<open>acc\<close>: stop here if the rest of the pattern matches, else
  take one more character, which cannot be a line break.
\<close>

fun match_name :: "string \<Rightarrow> string \<Rightarrow> (string \<times> string option) option" where
  "match_name acc [] = map_option (\<lambda>e. (acc, e)) (match_after_name [])"
| "match_name acc (c # r) =
     (case match_after_name (c # r) of
        Some e \<Rightarrow> Some (acc, e)
      | None \<Rightarrow> (if c = CHR 0x0A then None else match_name (acc @ [c]) r))"

definition pat_match :: "string \<Rightarrow> (string \<times> string option) option" where
  "pat_match s =
     first_some (map (\<lambda>i. case drop i s of
                             [] \<Rightarrow> None
                           | c # r \<Rightarrow> (if c = CHR 0x0A then None else match_name [c] r))
                   (rev [0 ..< Suc (length (takeWhile is_space s))]))"

record author =
  a_name :: string
  a_email :: "string option"

fun parse_author :: "toml \<Rightarrow> error + author" where
  "parse_author (TStr s) =
     (case pat_match s of
        None \<Rightarrow> Inr \<lparr>a_name = s, a_email = None\<rparr>
      | Some (n, e) \<Rightarrow> Inr \<lparr>a_name = strip n, a_email = map_option strip e\<rparr>)"
| "parse_author v = Inl TypeError"

definition parse_authors :: "toml \<Rightarrow> error + author list" where
  "parse_authors poetry_authors =
     ebind (if truthy poetry_authors then py_iter poetry_authors else Inr []) (\<lambda>xs.
       map_err parse_author xs)"

section \<open>DocumentSerializer\<close>

definition replace_char :: "char \<Rightarrow> string \<Rightarrow> string \<Rightarrow> string" where
  "replace_char old new s = concat (map (\<lambda>c. if c = old then new else [c]) s)"

definition toml_escape :: "string \<Rightarrow> string" where
  "toml_escape s =
     replace_char (CHR 0x22) [CHR 0x5C, CHR 0x22]
       (replace_char (CHR 0x5C) [CHR 0x5C, CHR 0x5C] s)"

text \<open>\<open>toml_escape(v)\<close> on a value of the document: only a string has \<open>replace\<close>.\<close>

fun escape_value :: "toml \<Rightarrow> error + string" where
  "escape_value (TStr s) = Inr (toml_escape s)"
| "escape_value v = Inl AttributeError"

definition quoted :: "string \<Rightarrow> string" where
  "quoted e = [CHR 0x22] @ e @ [CHR 0x22]"

definition dump_toml_array_str :: "string list \<Rightarrow> nat \<Rightarrow> string" where
  "dump_toml_array_str arr indent =
     (let pad = replicate indent CHR '' '';
          items = join '',\<newline>'' (map (\<lambda>x. pad @ quoted (toml_escape x)) arr)
      in ''[\<newline>'' @ items @ ''\<newline>'' @ replicate (indent - 2) CHR '' '' @ '']'')"

text \<open>
  The dictionary \<open>proj\<close>. A key that the program sets only under a condition is an
  optional field, or a list that is empty when the key is absent.
\<close>

record project =
  p_name :: toml
  p_version :: toml
  p_description :: "toml option"
  p_readme :: "toml option"
  p_authors :: "author list"
  p_license :: "toml option"
  p_urls :: "(string \<times> toml) list"
  p_dependencies :: "string list"
  p_optional_dependencies :: "(string \<times> string list) list"
  p_scripts :: "toml option"

definition get_truthy :: "(string \<times> toml) list \<Rightarrow> string \<Rightarrow> toml option" where
  "get_truthy d k = (if truthy_opt (map_of d k) then map_of d k else None)"

definition url_labels :: "(string \<times> string) list" where
  "url_labels =
     [(''homepage'', ''Homepage''), (''repository'', ''Repository''),
      (''documentation'', ''Documentation'')]"

text \<open>The first part of \<open>build_pep621_toml\<close>, which fills \<open>proj\<close>.\<close>

definition build_project ::
  "env \<Rightarrow> (string \<times> toml) list \<Rightarrow> string list \<Rightarrow> error + (project \<times> string list)" where
  "build_project env poetry warnings =
     ebind (parse_authors (case map_of poetry ''authors'' of Some v \<Rightarrow> v | None \<Rightarrow> TList []))
       (\<lambda>authors.
     ebind (poetry_deps_to_pep621 env
              (case map_of poetry ''dependencies'' of Some v \<Rightarrow> v | None \<Rightarrow> TDict []) warnings)
       (\<lambda>(dep_list, warnings1).
     let groups = (case map_of poetry ''group'' of Some (TDict g) \<Rightarrow> g | _ \<Rightarrow> []) in
     ebind (case map_of groups ''dev'' of
              None \<Rightarrow> Inr (TDict [])
            | Some (TDict dev_group) \<Rightarrow>
                Inr (case map_of dev_group ''dependencies'' of Some v \<Rightarrow> v | None \<Rightarrow> TDict [])
            | Some _ \<Rightarrow> Inl AttributeError)
       (\<lambda>dev_dependencies.
     ebind (poetry_deps_to_pep621 env dev_dependencies warnings1)
       (\<lambda>(dev_deps, warnings2).
     Inr (\<lparr>p_name = (case map_of poetry ''name'' of Some v \<Rightarrow> v | None \<Rightarrow> TStr ''unknown-package''),
           p_version = (case map_of poetry ''version'' of Some v \<Rightarrow> v | None \<Rightarrow> TStr ''0.1.0''),
           p_description = get_truthy poetry ''description'',
           p_readme = get_truthy poetry ''readme'',
           p_authors = authors,
           p_license = get_truthy poetry ''license'',
           p_urls = concat (map (\<lambda>(k, label). case get_truthy poetry k of
                                                  Some v \<Rightarrow> [(label, v)] | None \<Rightarrow> [])
                              url_labels),
           p_dependencies = dep_list,
           p_optional_dependencies = (if dev_deps \<noteq> [] then [(''dev'', dev_deps)] else []),
           p_scripts = get_truthy poetry ''scripts''\<rparr>,
          warnings2)))))"

text \<open>The second part, which writes \<open>lines\<close>, one function for each block of the code.\<close>

definition scalar_lines :: "project \<Rightarrow> error + string list" where
  "scalar_lines proj =
     map_err (\<lambda>(key, v). ebind (escape_value v) (\<lambda>e. Inr (key @ '' = '' @ quoted e)))
       ([(''name'', p_name proj), (''version'', p_version proj)]
        @ (case p_description proj of Some v \<Rightarrow> [(''description'', v)] | None \<Rightarrow> [])
        @ (case p_readme proj of Some v \<Rightarrow> [(''readme'', v)] | None \<Rightarrow> []))"

definition author_line :: "author \<Rightarrow> string" where
  "author_line a =
     (case a_email a of
        Some email \<Rightarrow>
          ''  { name = '' @ quoted (toml_escape (a_name a))
          @ '', email = '' @ quoted (toml_escape email) @ '' },''
      | None \<Rightarrow> ''  { name = '' @ quoted (toml_escape (a_name a)) @ '' },'')"

definition authors_lines :: "project \<Rightarrow> string list" where
  "authors_lines proj =
     (if p_authors proj \<noteq> [] then [''authors = [''] @ map author_line (p_authors proj) @ ['']'']
      else [])"

definition license_lines :: "project \<Rightarrow> error + string list" where
  "license_lines proj =
     (case p_license proj of
        Some v \<Rightarrow> ebind (escape_value v) (\<lambda>e. Inr [''license = { text = '' @ quoted e @ '' }''])
      | None \<Rightarrow> Inr [])"

definition key_value_lines :: "(string \<times> toml) list \<Rightarrow> error + string list" where
  "key_value_lines items =
     map_err (\<lambda>(k, v). ebind (escape_value v) (\<lambda>e. Inr (k @ '' = '' @ quoted e))) items"

definition urls_lines :: "project \<Rightarrow> error + string list" where
  "urls_lines proj =
     (if p_urls proj \<noteq> []
      then ebind (key_value_lines (p_urls proj)) (\<lambda>ls. Inr (''[project.urls]'' # ls))
      else Inr [])"

definition dependencies_lines :: "project \<Rightarrow> string list" where
  "dependencies_lines proj =
     (if p_dependencies proj \<noteq> []
      then ['''', ''dependencies = '' @ dump_toml_array_str (p_dependencies proj) 2]
      else [])"

definition optional_dependencies_lines :: "project \<Rightarrow> string list" where
  "optional_dependencies_lines proj =
     (if p_optional_dependencies proj \<noteq> []
      then ['''', ''[project.optional-dependencies]'']
           @ map (\<lambda>(group, arr). group @ '' = '' @ dump_toml_array_str arr 2)
               (p_optional_dependencies proj)
      else [])"

definition scripts_lines :: "project \<Rightarrow> error + string list" where
  "scripts_lines proj =
     (case p_scripts proj of
        None \<Rightarrow> Inr []
      | Some (TDict items) \<Rightarrow>
          ebind (key_value_lines items) (\<lambda>ls. Inr ('''' # ''[project.scripts]'' # ls))
      | Some _ \<Rightarrow> Inl AttributeError)"

definition default_build_system :: toml where
  "default_build_system =
     TDict [(''requires'', TList [TStr ''poetry-core>=1.9.0'']),
            (''build-backend'', TStr ''poetry.core.masonry.api'')]"

definition build_system_lines :: "toml \<Rightarrow> error + string list" where
  "build_system_lines build_system =
     (case (if truthy build_system then build_system else default_build_system) of
        TDict bs \<Rightarrow>
          ebind (py_iter (case map_of bs ''requires'' of
                            Some v \<Rightarrow> v | None \<Rightarrow> TList [TStr ''poetry-core>=1.9.0''])) (\<lambda>requires.
          ebind (map_err escape_value requires) (\<lambda>escaped.
          ebind (escape_value (case map_of bs ''build-backend'' of
                                 Some v \<Rightarrow> v | None \<Rightarrow> TStr ''poetry.core.masonry.api'')) (\<lambda>backend.
            Inr ['''', ''[build-system]'',
                 ''requires = ['' @ join '', '' (map quoted escaped) @ '']'',
                 ''build-backend = '' @ quoted backend])))
      | _ \<Rightarrow> Inl AttributeError)"

definition notes_lines :: "string list \<Rightarrow> string list" where
  "notes_lines warnings =
     (if warnings \<noteq> []
      then ['''', ''# --- Migration notes ---''] @ map (\<lambda>w. ''# '' @ w) warnings
      else [])"

definition render_lines :: "project \<Rightarrow> toml \<Rightarrow> string list \<Rightarrow> error + string list" where
  "render_lines proj build_system warnings =
     ebind (scalar_lines proj) (\<lambda>scalars.
     ebind (license_lines proj) (\<lambda>license.
     ebind (urls_lines proj) (\<lambda>urls.
     ebind (scripts_lines proj) (\<lambda>scripts.
     ebind (build_system_lines build_system) (\<lambda>build.
       Inr ([''[project]''] @ scalars @ authors_lines proj @ license @ urls
            @ dependencies_lines proj @ optional_dependencies_lines proj @ scripts
            @ build @ notes_lines warnings))))))"

definition build_pep621_toml ::
  "env \<Rightarrow> (string \<times> toml) list \<Rightarrow> toml \<Rightarrow> string list \<Rightarrow> error + (string \<times> string list)" where
  "build_pep621_toml env poetry build_system warnings =
     ebind (build_project env poetry warnings) (\<lambda>(proj, warnings').
     ebind (render_lines proj build_system warnings') (\<lambda>lines.
       Inr (join ''\<newline>'' lines @ ''\<newline>'', warnings')))"

text \<open>
  \<open>migrate_pyproject\<close> from the parsed document on, without the reading and writing of
  files: the text and the warnings that it returns.
\<close>

definition migrate_pyproject ::
  "env \<Rightarrow> (string \<times> toml) list \<Rightarrow> error + (string \<times> string list)" where
  "migrate_pyproject env data =
     ebind (case map_of data ''tool'' of
              None \<Rightarrow> Inr None
            | Some (TDict tool) \<Rightarrow> Inr (map_of tool ''poetry'')
            | Some _ \<Rightarrow> Inl AttributeError) (\<lambda>poetry.
       if \<not> truthy_opt poetry then Inl ValueError
       else (case poetry of
               Some (TDict p) \<Rightarrow>
                 build_pep621_toml env p
                   (case map_of data ''build-system'' of Some v \<Rightarrow> v | None \<Rightarrow> TDict []) []
             | _ \<Rightarrow> Inl AttributeError))"

text \<open>
  An environment to run the functions in: no home directory to expand, the working
  directory \<open>/work\<close>, no symbolic links.
\<close>

definition example_env :: env where
  "example_env =
     \<lparr>expanduser = (\<lambda>p. Inr p),
      absolute = (\<lambda>p. Inr (if startswith p ''/'' then p else ''/work/'' @ p)),
      repr = (\<lambda>v. ''<repr>'')\<rparr>"

section \<open>The constraint translator: caret, tilde and passthrough\<close>

lemma ebind_Inr_iff: "ebind m f = Inr y \<longleftrightarrow> (\<exists>x. m = Inr x \<and> f x = Inr y)"
  by (cases m) (simp_all add: ebind_def)

lemma ebind_Inr [simp]: "ebind (Inr x) f = f x"
  by (simp add: ebind_def)

lemma ebind_Inl [simp]: "ebind (Inl e) f = Inl e"
  by (simp add: ebind_def)



lemma split_on_not_Nil: "split_on sep s \<noteq> []"
  by (induction s) (auto split: list.splits)

lemma split_on_single: "split_on sep s = [p] \<Longrightarrow> p = s"
proof (induction s arbitrary: p)
  case Nil
  then show ?case by simp
next
  case (Cons c cs)
  then show ?case
    by (auto simp: split_on_not_Nil split: if_splits list.splits)
qed

lemma split_on_no_sep: "sep \<notin> set s \<Longrightarrow> split_on sep s = [s]"
  by (induction s) auto

subsection \<open>The number of digits of a converted integer\<close>

lemma length_str_nat_le: "n < 10 ^ k \<Longrightarrow> 0 < k \<Longrightarrow> length (str_nat n) \<le> k"
proof (induction k arbitrary: n)
  case 0
  then show ?case by simp
next
  case (Suc k)
  show ?case
  proof (cases "n < 10")
    case True
    then show ?thesis by (subst str_nat.simps) simp
  next
    case False
    then have k: "0 < k" using Suc.prems(1) by (cases k) auto
    have "n div 10 < 10 ^ k" using Suc.prems(1) by (simp add: div_less_iff_less_mult mult.commute)
    from Suc.IH [OF this k] False show ?thesis by (subst str_nat.simps) simp
  qed
qed

lemma length_str_nat_ge: "10 ^ k \<le> n \<Longrightarrow> Suc k \<le> length (str_nat n)"
proof (induction k arbitrary: n)
  case 0
  then show ?case by (subst str_nat.simps) simp
next
  case (Suc k)
  have "(1::nat) \<le> 10 ^ k" by simp
  then have "(10::nat) \<le> 10 ^ Suc k" by simp
  with Suc.prems have "\<not> n < 10" by linarith
  moreover have "10 ^ k \<le> n div 10"
    using Suc.prems by (simp add: less_eq_div_iff_mult_less_eq mult.commute)
  ultimately show ?case
    using Suc.IH [of "n div 10"] by (subst str_nat.simps) simp
qed

lemma int_digits_power: "int_digits (10 ^ k) = Suc k"
proof -
  have "nat \<bar>(10::int) ^ k\<bar> = 10 ^ k"
    by (simp add: nat_power_eq)
  moreover have "length (str_nat (10 ^ k)) \<le> Suc k"
    by (rule length_str_nat_le) simp_all
  moreover have "Suc k \<le> length (str_nat (10 ^ k))"
    by (rule length_str_nat_ge) simp
  ultimately have "length (str_nat (nat \<bar>(10::int) ^ k\<bar>)) = Suc k"
    by (simp only: le_antisym)
  then show ?thesis unfolding int_digits_def .
qed

lemma digits_ok_is_digit:
  "digits_ok ds \<Longrightarrow> \<forall>c \<in> set (filter (\<lambda>c. c \<noteq> CHR ''_'') ds). is_digit c"
  by (induction ds rule: digits_ok.induct) (auto split: if_splits)

lemma digit_val_range: "is_digit c \<Longrightarrow> 0 \<le> digit_val c \<and> digit_val c \<le> 9"
  by (auto simp: is_digit_def digit_val_def less_eq_char_def)

lemma foldl_digits_bound:
  assumes "\<forall>c \<in> set cs. is_digit c" and "0 \<le> a"
  shows "0 \<le> foldl (\<lambda>acc c. 10 * acc + digit_val c) a cs
       \<and> foldl (\<lambda>acc c. 10 * acc + digit_val c) a cs < (a + 1) * 10 ^ length cs"
  using assms
proof (induction cs arbitrary: a)
  case Nil
  then show ?case by simp
next
  case (Cons c cs)
  from Cons.prems have d: "0 \<le> digit_val c" "digit_val c \<le> 9"
    using digit_val_range by auto
  have a': "0 \<le> 10 * a + digit_val c" using d Cons.prems by simp
  from Cons.IH [OF _ a'] Cons.prems(1)
  have ih: "0 \<le> foldl (\<lambda>acc c. 10 * acc + digit_val c) (10 * a + digit_val c) cs"
    "foldl (\<lambda>acc c. 10 * acc + digit_val c) (10 * a + digit_val c) cs
       < (10 * a + digit_val c + 1) * 10 ^ length cs"
    by auto
  have "(10 * a + digit_val c + 1) * 10 ^ length cs \<le> (10 * (a + 1)) * 10 ^ length cs"
    using d by (intro mult_right_mono) simp_all
  also have "\<dots> = (a + 1) * 10 ^ length (c # cs)"
    by simp
  finally have "(10 * a + digit_val c + 1) * 10 ^ length cs \<le> (a + 1) * 10 ^ length (c # cs)" .
  with ih(2) have "foldl (\<lambda>acc c. 10 * acc + digit_val c) (10 * a + digit_val c) cs
       < (a + 1) * 10 ^ length (c # cs)"
    by (rule less_le_trans)
  with ih(1) show ?case by (simp del: power_Suc list.size)
qed

lemma digits_value_bound:
  assumes "int_digits_ok ds"
  shows "0 \<le> digits_value ds \<and> digits_value ds < 10 ^ max_str_digits"
proof -
  let ?cs = "filter (\<lambda>c. c \<noteq> CHR ''_'') ds"
  from assms have d: "digits_ok ds" and len: "length ?cs \<le> max_str_digits"
    by (simp_all add: int_digits_ok_def)
  note ok = digits_ok_is_digit [OF d]
  from foldl_digits_bound [OF ok, of 0]
  have nonneg: "0 \<le> digits_value ds" and lt: "digits_value ds < 10 ^ length ?cs"
    by (simp_all add: digits_value_def)
  have "(10::int) ^ length ?cs \<le> 10 ^ max_str_digits"
    using len by (intro power_increasing) simp_all
  with lt have "digits_value ds < 10 ^ max_str_digits"
    by (rule less_le_trans)
  with nonneg show ?thesis by (rule conjI)
qed

lemma int_digits_small:
  assumes "\<bar>n\<bar> < 10 ^ max_str_digits"
  shows "int_digits n \<le> max_str_digits"
proof -
  have "nat \<bar>n\<bar> < 10 ^ max_str_digits"
    using assms by (simp add: nat_less_iff)
  then show ?thesis
    unfolding int_digits_def by (rule length_str_nat_le) (simp add: max_str_digits_def)
qed

lemma py_int_digits: "py_int p = Inr n \<Longrightarrow> int_digits n \<le> max_str_digits"
proof -
  assume "py_int p = Inr n"
  then obtain ds where "int_digits_ok ds" and "n = digits_value ds \<or> n = - digits_value ds"
    by (auto simp: py_int_def split: list.splits if_splits)
  with digits_value_bound [of ds] have "\<bar>n\<bar> < 10 ^ max_str_digits" by auto
  then show ?thesis by (rule int_digits_small)
qed

lemma py_str_int_parsed: "py_int p = Inr n \<Longrightarrow> py_str_int n = Inr (str_int n)"
  using py_int_digits [of p n] by (simp add: py_str_int_def)


lemma py_str_int_if:
  "py_str_int i = (if int_digits i \<le> max_str_digits then Inr (str_int i) else Inl ValueError)"
  by (simp add: py_str_int_def)


subsection \<open>A component of as many nines as the limit allows\<close>

lemma strip_id:
  assumes "s \<noteq> []" and "\<not> is_space (hd s)" and "\<not> is_space (last s)"
  shows "strip s = s"
proof -
  from assms(1,2) have "dropWhile is_space s = s"
    by (cases s) simp_all
  moreover from assms(1,3) have "dropWhile is_space (rev s) = rev s"
    by (cases "rev s") (simp_all add: hd_rev [symmetric])
  ultimately show ?thesis by (simp add: strip_def)
qed

lemma is_digit_nine: "is_digit CHR ''9''"
  by (simp add: is_digit_def less_eq_char_def)

lemma digits_ok_nines: "digits_ok (replicate (Suc n) CHR ''9'')"
  by (induction n) (simp_all add: is_digit_nine)

lemma foldl_nines:
  "foldl (\<lambda>acc c. 10 * acc + digit_val c) a (replicate n CHR ''9'') = (a + 1) * 10 ^ n - 1"
  by (induction n arbitrary: a) (simp_all add: digit_val_def algebra_simps)

lemma digits_value_nines: "digits_value (replicate n CHR ''9'') = 10 ^ n - 1"
  using foldl_nines [of 0 n] by (simp add: digits_value_def)

lemma py_int_nines:
  assumes "0 < n" and "n \<le> max_str_digits"
  shows "py_int (replicate n CHR ''9'') = Inr (10 ^ n - 1)"
proof -
  from assms(1) obtain m where n: "n = Suc m" by (cases n) auto
  have sp: "\<not> is_int_space CHR ''9''"
    by (simp add: is_int_space_def int_whitespace_def)
  have "int_digits_ok (replicate n CHR ''9'')"
    using assms(2) digits_ok_nines [of m] by (simp add: int_digits_ok_def n)
  moreover have dw: "dropWhile is_int_space (replicate n CHR ''9'') = replicate n CHR ''9''"
    using sp by (cases n) simp_all
  moreover have "rev (dropWhile is_int_space (rev (dropWhile is_int_space (replicate n CHR ''9''))))
      = CHR ''9'' # replicate m CHR ''9''"
    unfolding dw rev_replicate by (simp add: n)
  ultimately show ?thesis
    using digits_value_nines [of n] by (simp add: py_int_def n)
qed

lemma max_str_digits_pos: "0 < max_str_digits"
  by (simp add: max_str_digits_def)

lemma py_str_int_power: "py_str_int (10 ^ max_str_digits) = Inl ValueError"
  by (simp add: py_str_int_def int_digits_power)



lemma tilde_nines:
  "normalize_version_constraint (CHR ''~'' # replicate max_str_digits CHR ''9'') = Inl ValueError"
proof -
  let ?n = max_str_digits
  let ?s = "CHR ''~'' # replicate ?n CHR ''9''"
  have "\<not> is_space CHR ''~''" "\<not> is_space CHR ''9''"
    by (simp_all add: is_space_def whitespace_def)
  then have "strip ?s = ?s"
    using max_str_digits_pos by (intro strip_id) (simp_all add: last_replicate)
  moreover have "split_on CHR ''.'' (replicate ?n CHR ''9'') = [replicate ?n CHR ''9'']"
    by (rule split_on_no_sep) simp
  moreover note py_int_nines [OF max_str_digits_pos order_refl] py_str_int_power
  ultimately show ?thesis
    by (simp add: normalize_version_constraint_def tilde_to_range_def startswith_def)
qed

subsection \<open>Caret constraints\<close>




subsection \<open>Tilde constraints\<close>

text \<open>
  C2, as stated, fails at the same edge: the single component of 4300 nines is accepted
  by \<open>int\<close>, and the ceiling \<open>10 ^ 4300\<close> has one digit too many to be formatted.
\<close>

theorem tilde_translation_counterexample:
  "py_int (replicate 4300 CHR ''9'') = Inr (10 ^ 4300 - 1)
   \<and> normalize_version_constraint (CHR ''~'' # replicate 4300 CHR ''9'') = Inl ValueError"
  using py_int_nines [OF max_str_digits_pos order_refl, unfolded max_str_digits_def]
    tilde_nines [unfolded max_str_digits_def]
  by (rule conjI)

text \<open>
  C2, amended. A tilde constraint with one, two or three integer components. With one
  component the floor repeats the component as it is written and the ceiling is the next
  integer; with two the minor component is bumped; with three the minor component is
  bumped and the patch component of the ceiling is zero. The range is returned exactly
  when the bumped component has no more digits than the limit of the conversion to a
  string; otherwise the translation raises \<open>ValueError\<close>.
\<close>

theorem tilde_translation:
  assumes "strip ver = CHR ''~'' # base"
    and "map py_int (split_on CHR ''.'' base) = map Inr ns"
  shows "(ns = [x] \<longrightarrow>
            normalize_version_constraint ver =
              (if int_digits (x + 1) \<le> max_str_digits
               then Inr (''>='' @ base @ ''.0'' @ '',<'' @ str_int (x + 1) @ ''.0'')
               else Inl ValueError))
       \<and> (ns = [x, y] \<longrightarrow>
            normalize_version_constraint ver =
              (if int_digits (y + 1) \<le> max_str_digits
               then Inr (''>='' @ str_int x @ ''.'' @ str_int y
                         @ '',<'' @ str_int x @ ''.'' @ str_int (y + 1))
               else Inl ValueError))
       \<and> (ns = [x, y, z] \<longrightarrow>
            normalize_version_constraint ver =
              (if int_digits (y + 1) \<le> max_str_digits
               then Inr (''>='' @ str_int x @ ''.'' @ str_int y @ ''.'' @ str_int z
                         @ '',<'' @ str_int x @ ''.'' @ str_int (y + 1) @ ''.0'')
               else Inl ValueError))"
proof -
  have n: "normalize_version_constraint ver = tilde_to_range (CHR ''~'' # base)"
    using assms(1) by (simp add: normalize_version_constraint_def startswith_def Let_def)
  have one: "normalize_version_constraint ver =
      (if int_digits (x + 1) \<le> max_str_digits
       then Inr (''>='' @ base @ ''.0'' @ '',<'' @ str_int (x + 1) @ ''.0'')
       else Inl ValueError)" if "ns = [x]"
  proof -
    have "map py_int (split_on CHR ''.'' base) = [Inr x]"
      using assms(2) that by simp
    then obtain p0 where p: "split_on CHR ''.'' base = [p0]" "py_int p0 = Inr x"
      by (auto simp: map_eq_Cons_conv)
    from p(1) have "p0 = base" by (rule split_on_single)
    with p show ?thesis
      by (simp add: n tilde_to_range_def startswith_def Let_def py_str_int_if [of "x + 1"])
  qed
  have two: "normalize_version_constraint ver =
      (if int_digits (y + 1) \<le> max_str_digits
       then Inr (''>='' @ str_int x @ ''.'' @ str_int y
                 @ '',<'' @ str_int x @ ''.'' @ str_int (y + 1))
       else Inl ValueError)" if "ns = [x, y]"
  proof -
    have "map py_int (split_on CHR ''.'' base) = [Inr x, Inr y]"
      using assms(2) that by simp
    then obtain p0 p1 where p: "split_on CHR ''.'' base = [p0, p1]"
      "py_int p0 = Inr x" "py_int p1 = Inr y"
      by (auto simp: map_eq_Cons_conv)
    have "py_str_int x = Inr (str_int x)" "py_str_int y = Inr (str_int y)"
      by (rule py_str_int_parsed, rule p)+
    with p show ?thesis
      by (simp add: n tilde_to_range_def startswith_def py_str_int_if [of "y + 1"])
  qed
  have three: "normalize_version_constraint ver =
      (if int_digits (y + 1) \<le> max_str_digits
       then Inr (''>='' @ str_int x @ ''.'' @ str_int y @ ''.'' @ str_int z
                 @ '',<'' @ str_int x @ ''.'' @ str_int (y + 1) @ ''.0'')
       else Inl ValueError)" if "ns = [x, y, z]"
  proof -
    have "map py_int (split_on CHR ''.'' base) = [Inr x, Inr y, Inr z]"
      using assms(2) that by simp
    then obtain p0 p1 p2 where p: "split_on CHR ''.'' base = [p0, p1, p2]"
      "py_int p0 = Inr x" "py_int p1 = Inr y" "py_int p2 = Inr z"
      by (auto simp: map_eq_Cons_conv)
    have "py_str_int x = Inr (str_int x)" "py_str_int y = Inr (str_int y)"
      "py_str_int z = Inr (str_int z)"
      by (rule py_str_int_parsed, rule p)+
    with p show ?thesis
      by (simp add: n tilde_to_range_def startswith_def py_str_int_if [of "y + 1"])
  qed
  from one two three show ?thesis by (intro conjI impI)
qed

theorem tilde_translation_witness:
  "normalize_version_constraint ''~1'' = Inr ''>=1.0,<2.0''
   \<and> normalize_version_constraint ''~1.2'' = Inr ''>=1.2,<1.3''
   \<and> normalize_version_constraint ''~1.2.3'' = Inr ''>=1.2.3,<1.3.0''"
proof -
  have s1: "strip ''~1'' = CHR ''~'' # ''1''" by code_simp
  have p1: "map py_int (split_on CHR ''.'' ''1'') = map Inr [1]" by code_simp
  have s2: "strip ''~1.2'' = CHR ''~'' # ''1.2''" by code_simp
  have p2: "map py_int (split_on CHR ''.'' ''1.2'') = map Inr [1, 2]" by code_simp
  have s3: "strip ''~1.2.3'' = CHR ''~'' # ''1.2.3''" by code_simp
  have p3: "map py_int (split_on CHR ''.'' ''1.2.3'') = map Inr [1, 2, 3]" by code_simp
  have e: "str_int 1 = ''1''" "str_int 2 = ''2''" "str_int 3 = ''3''"
    by code_simp+
  have d: "int_digits 2 \<le> max_str_digits" "int_digits 3 \<le> max_str_digits"
    by code_simp+
  show ?thesis
    using tilde_translation [OF s1 p1, of 1 0 0] tilde_translation [OF s2 p2, of 1 2 0]
      tilde_translation [OF s3 p3, of 1 2 3]
    by (simp add: e d)
qed

subsection \<open>Passthrough\<close>

text \<open>
  C3, as stated, fails: the constraint is trimmed before anything else, so a string with
  white space at an end that starts with neither \<open>^\<close> nor \<open>~\<close> is not returned unchanged.
\<close>

theorem passthrough_counterexample:
  "\<not> startswith ''==2.0 '' ''^'' \<and> \<not> startswith ''==2.0 '' ''~''
   \<and> normalize_version_constraint ''==2.0 '' = Inr ''==2.0''
   \<and> normalize_version_constraint ''==2.0 '' \<noteq> Inr ''==2.0 ''"
  by code_simp

text \<open>
  C3, amended. When the trimmed string starts with neither \<open>^\<close> nor \<open>~\<close>, the result is
  the trimmed string: a string without white space at its ends is returned unchanged.
\<close>

theorem passthrough_stripped:
  assumes "\<not> startswith (strip ver) ''^''" and "\<not> startswith (strip ver) ''~''"
  shows "normalize_version_constraint ver = Inr (strip ver)"
  using assms by (simp add: normalize_version_constraint_def Let_def)

theorem passthrough_stripped_witness:
  "\<not> startswith (strip ''==2.0'') ''^'' \<and> \<not> startswith (strip ''==2.0'') ''~''
   \<and> normalize_version_constraint ''==2.0'' = Inr ''==2.0''"
proof -
  have h1: "\<not> startswith (strip ''==2.0'') ''^''" by code_simp
  have h2: "\<not> startswith (strip ''==2.0'') ''~''" by code_simp
  have s: "strip ''==2.0'' = ''==2.0''" by code_simp
  show ?thesis using passthrough_stripped [OF h1 h2] h1 h2 by (simp add: s)
qed

section \<open>The specifier builder\<close>

lemma dep_table_warnings:
  "dep_table_to_pep508 env name val ws =
     (case dep_table_to_pep508 env name val [] of
        Inl e \<Rightarrow> Inl e
      | Inr (s, w) \<Rightarrow> Inr (s, ws @ w))"
proof (cases val)
  case (TStr s)
  then show ?thesis by (cases "normalize_version_constraint s") simp_all
next
  case (TDict d)
  show ?thesis
  proof (cases "map_of d ''path''")
    case (Some p)
    then show ?thesis
      unfolding TDict
      by (cases p; cases "expanduser env (case p of TStr s \<Rightarrow> s | _ \<Rightarrow> [])";
          cases "absolute env (projr (expanduser env (case p of TStr s \<Rightarrow> s | _ \<Rightarrow> [])))")
        (simp_all add: Let_def)
  next
    case None
    note np = this
    show ?thesis
    proof (cases "map_of d ''git''")
      case (Some url)
      then show ?thesis
        unfolding TDict using np by (simp split: option.splits)
    next
      case None
      then show ?thesis
        unfolding TDict using np
        by (simp add: Let_def ebind_def split: option.splits sum.splits toml.splits)
    qed
  qed
qed simp_all

lemma sublist_editable_warning: "sublist name (editable_warning name path)"
  unfolding editable_warning_def
  by (rule sublist_appendI)

lemma deps_loop_success:
  assumes "\<forall>kv \<in> set items. lower (fst kv) \<noteq> ''python'' \<longrightarrow>
             (\<exists>r. dep_table_to_pep508 env (fst kv) (snd kv) [] = Inr r)"
  shows "deps_loop env items out ws =
           Inr (out @ map (\<lambda>kv. fst (projr (dep_table_to_pep508 env (fst kv) (snd kv) [])))
                        (filter (\<lambda>kv. lower (fst kv) \<noteq> ''python'') items),
                ws @ concat (map (\<lambda>kv. snd (projr (dep_table_to_pep508 env (fst kv) (snd kv) [])))
                        (filter (\<lambda>kv. lower (fst kv) \<noteq> ''python'') items)))"
  using assms
proof (induction items arbitrary: out ws)
  case Nil
  then show ?case by simp
next
  case (Cons kv items)
  obtain name val where kv: "kv = (name, val)" by (cases kv)
  show ?case
  proof (cases "lower name = ''python''")
    case True
    with Cons kv show ?thesis by simp
  next
    case False
    with Cons.prems kv obtain s w where r: "dep_table_to_pep508 env name val [] = Inr (s, w)"
      by auto
    then have "dep_table_to_pep508 env name val ws = Inr (s, ws @ w)"
      by (subst dep_table_warnings) simp
    with False kv r Cons.IH [of "out @ [s]" "ws @ w"] Cons.prems show ?thesis
      by simp
  qed
qed

lemma deps_loop_Inr_all:
  assumes "deps_loop env items out ws = Inr r"
  shows "\<forall>kv \<in> set items. lower (fst kv) \<noteq> ''python'' \<longrightarrow>
           (\<exists>r. dep_table_to_pep508 env (fst kv) (snd kv) [] = Inr r)"
  using assms
proof (induction items arbitrary: out ws)
  case Nil
  then show ?case by simp
next
  case (Cons kv items)
  obtain name val where kv: "kv = (name, val)" by (cases kv)
  show ?case
  proof (cases "lower name = ''python''")
    case True
    with Cons kv show ?thesis by simp
  next
    case False
    with Cons.prems kv obtain s w where
      r: "dep_table_to_pep508 env name val ws = Inr (s, w)"
      and l: "deps_loop env items (out @ [s]) w = Inr r"
      by (auto simp: ebind_Inr_iff)
    from r have "\<exists>r. dep_table_to_pep508 env name val [] = Inr r"
      by (subst (asm) dep_table_warnings) (auto split: sum.splits)
    with Cons.IH [OF l] kv show ?thesis by simp
  qed
qed

lemma poetry_deps_TDict:
  "poetry_deps_to_pep621 env (TDict items) ws =
     ebind (deps_loop env items [] ws) (\<lambda>(out, ws'). Inr (sort_key lower out, ws'))"
  by (cases items) (simp_all add: poetry_deps_to_pep621_def)

subsection \<open>Editable path dependencies\<close>

text \<open>
  C7, as stated, fails: an entry under the interpreter key is skipped by the builder
  before its value is looked at, so a table with a \<open>path\<close> entry and a true \<open>develop\<close>
  entry under that key yields no warning and no specifier.
\<close>

theorem editable_path_warning_counterexample:
  "map_of [(''path'', TStr ''libs/py''), (''develop'', TBool True)] ''path'' = Some (TStr ''libs/py'')
   \<and> truthy_opt (map_of [(''path'', TStr ''libs/py''), (''develop'', TBool True)] ''develop'')
   \<and> poetry_deps_to_pep621 example_env
        (TDict [(''python'', TDict [(''path'', TStr ''libs/py''), (''develop'', TBool True)])]) []
       = Inr ([], [])"
  by code_simp

text \<open>
  C7, amended. An entry of the dependency table whose key is not the interpreter key,
  with a \<open>path\<close> entry that is a string the platform resolves and a true \<open>develop\<close>
  entry, where the entries before it and the entries after it are ones the builder
  accepts. The builder returns a list, not an error. The warnings it appends are those of
  the entries before, then exactly one warning for this entry, then those of the entries
  after; that warning mentions the name of the dependency. The specifiers are those of
  the entries before and after together with one more, the plain file reference
  \<open>name @ file://<absolute-path>\<close>.
\<close>

theorem editable_path_warning:
  assumes "lower name \<noteq> ''python''"
    and "map_of val ''path'' = Some (TStr p)"
    and "truthy_opt (map_of val ''develop'')"
    and "expanduser env p = Inr path"
    and "absolute env path = Inr abs_path"
    and "poetry_deps_to_pep621 env (TDict before) [] = Inr (out_b, ws_b)"
    and "poetry_deps_to_pep621 env (TDict after) [] = Inr (out_a, ws_a)"
  shows "(\<exists>out. poetry_deps_to_pep621 env (TDict (before @ (name, TDict val) # after)) warnings
                  = Inr (out, warnings @ ws_b @ [editable_warning name path] @ ws_a)
               \<and> mset out = mset out_b + {#name @ '' @ file://'' @ abs_path#} + mset out_a)
         \<and> sublist name (editable_warning name path)"
proof -
  define keep where "keep = (\<lambda>kv :: string \<times> toml. lower (fst kv) \<noteq> ''python'')"
  define f where "f = (\<lambda>kv :: string \<times> toml. dep_table_to_pep508 env (fst kv) (snd kv) [])"
  define g where "g = (\<lambda>kv. fst (projr (f kv)))"
  define h where "h = (\<lambda>kv. snd (projr (f kv)))"
  define e where "e = (name, TDict val)"
  define spec where "spec = name @ '' @ file://'' @ abs_path"
  define w where "w = editable_warning name path"
  have loop: "deps_loop env items [] ws
      = Inr (map g (filter keep items), ws @ concat (map h (filter keep items)))"
    if "\<forall>kv \<in> set items. keep kv \<longrightarrow> (\<exists>x. f kv = Inr x)" for items ws
    using deps_loop_success [of items env "[]" ws] that
    unfolding keep_def f_def g_def h_def by simp
  have part: "(\<forall>kv \<in> set items. keep kv \<longrightarrow> (\<exists>x. f kv = Inr x))
      \<and> out = sort_key lower (map g (filter keep items))
      \<and> ws = concat (map h (filter keep items))"
    if "poetry_deps_to_pep621 env (TDict items) [] = Inr (out, ws)" for items out ws
  proof -
    from that obtain raw where raw: "deps_loop env items [] [] = Inr (raw, ws)"
      and out: "out = sort_key lower raw"
      by (auto simp: poetry_deps_TDict ebind_Inr_iff)
    have ok: "\<forall>kv \<in> set items. keep kv \<longrightarrow> (\<exists>x. f kv = Inr x)"
      unfolding keep_def f_def using raw by (rule deps_loop_Inr_all)
    from loop [OF ok, of "[]"] raw out show ?thesis
      using ok by simp
  qed
  note b = part [OF assms(6)] and a = part [OF assms(7)]
  have fe: "f e = Inr (spec, [w])"
    unfolding f_def e_def spec_def w_def using assms(2-5) by simp
  have ke: "keep e"
    unfolding keep_def e_def using assms(1) by simp
  have ge: "g e = spec" and he: "h e = [w]"
    unfolding g_def h_def by (simp_all add: fe)
  have ok: "\<forall>kv \<in> set (before @ e # after). keep kv \<longrightarrow> (\<exists>x. f kv = Inr x)"
  proof (intro ballI impI)
    fix kv
    assume "kv \<in> set (before @ e # after)" and k: "keep kv"
    then consider "kv \<in> set before" | "kv = e" | "kv \<in> set after"
      by auto
    then show "\<exists>x. f kv = Inr x"
    proof cases
      case 1
      with b k show ?thesis by simp
    next
      case 2
      with fe show ?thesis by simp
    next
      case 3
      with a k show ?thesis by simp
    qed
  qed
  have res: "poetry_deps_to_pep621 env (TDict (before @ e # after)) warnings
      = Inr (sort_key lower (map g (filter keep before) @ spec # map g (filter keep after)),
             warnings @ ws_b @ [w] @ ws_a)"
    using b a ke by (simp add: poetry_deps_TDict loop [OF ok] ge he)
  have ms: "mset (sort_key lower (map g (filter keep before) @ spec # map g (filter keep after)))
      = mset out_b + {#spec#} + mset out_a"
    using b a by simp
  have "\<exists>out. poetry_deps_to_pep621 env (TDict (before @ e # after)) warnings
                  = Inr (out, warnings @ ws_b @ [w] @ ws_a)
               \<and> mset out = mset out_b + {#spec#} + mset out_a"
    using res ms by (intro exI conjI)
  then have "\<exists>out. poetry_deps_to_pep621 env (TDict (before @ (name, TDict val) # after)) warnings
                  = Inr (out, warnings @ ws_b @ [editable_warning name path] @ ws_a)
               \<and> mset out = mset out_b + {#name @ '' @ file://'' @ abs_path#} + mset out_a"
    unfolding e_def spec_def w_def .
  then show ?thesis
    using sublist_editable_warning by (rule conjI)
qed

text \<open>
  The dependency table of the end-to-end scenario: one registry entry before the editable
  path entry, none after.
\<close>

theorem editable_path_warning_witness:
  "(\<exists>out. poetry_deps_to_pep621 example_env
            (TDict [(''requests'', TStr ''^2.31.0''),
                    (''localtool'', TDict [(''path'', TStr ''libs/localtool''), (''develop'', TBool True)])])
            []
          = Inr (out, [''[editable-warning] localtool uses develop=true (editable). PEP 621 cannot encode this. Use `pip install -e libs/localtool` inside the venv for live edits.''])
        \<and> mset out = mset [''requests >=2.31.0,<3.0.0'']
                     + {#''localtool @ file:///work/libs/localtool''#} + mset [])
   \<and> sublist ''localtool'' (editable_warning ''localtool'' ''libs/localtool'')"
proof -
  have h0: "lower ''localtool'' \<noteq> ''python''" by code_simp
  have h1: "map_of [(''path'', TStr ''libs/localtool''), (''develop'', TBool True)] ''path''
            = Some (TStr ''libs/localtool'')" by simp
  have h2: "truthy_opt (map_of [(''path'', TStr ''libs/localtool''), (''develop'', TBool True)] ''develop'')"
    by simp
  have h3: "expanduser example_env ''libs/localtool'' = Inr ''libs/localtool''"
    by (simp add: example_env_def)
  have h4: "absolute example_env ''libs/localtool'' = Inr ''/work/libs/localtool''"
    by (simp add: example_env_def startswith_def)
  have h5: "poetry_deps_to_pep621 example_env (TDict [(''requests'', TStr ''^2.31.0'')]) []
            = Inr ([''requests >=2.31.0,<3.0.0''], [])"
    by code_simp
  have h6: "poetry_deps_to_pep621 example_env (TDict []) [] = Inr ([], [])"
    by code_simp
  have w: "editable_warning ''localtool'' ''libs/localtool''
      = ''[editable-warning] localtool uses develop=true (editable). PEP 621 cannot encode this. Use `pip install -e libs/localtool` inside the venv for live edits.''"
    by (simp add: editable_warning_def)
  have c: "''localtool'' @ '' @ file://'' @ ''/work/libs/localtool''
      = ''localtool @ file:///work/libs/localtool''"
    by simp
  show ?thesis
    using editable_path_warning [OF h0 h1 h2 h3 h4 h5 h6, of "[]"]
    unfolding c append.simps append_Nil2 w [symmetric] .
qed

subsection \<open>Version-control dependencies\<close>




subsection \<open>The order of the specifiers\<close>

text \<open>
  C8, as stated, fails: two specifiers that differ only in the case of their letters have
  the same sort key, the stable sort keeps them in input order, and so the output list
  changes with the order of the input.
\<close>

theorem dependency_order_counterexample:
  "mset [(''Foo'', TStr ''1''), (''foo'', TStr ''1'')] = mset [(''foo'', TStr ''1''), (''Foo'', TStr ''1'')]
   \<and> poetry_deps_to_pep621 example_env (TDict [(''Foo'', TStr ''1''), (''foo'', TStr ''1'')]) []
       = Inr ([''Foo 1'', ''foo 1''], [])
   \<and> poetry_deps_to_pep621 example_env (TDict [(''foo'', TStr ''1''), (''Foo'', TStr ''1'')]) []
       = Inr ([''foo 1'', ''Foo 1''], [])"
proof -
  have "mset [(''Foo'', TStr ''1''), (''foo'', TStr ''1'')]
        = mset [(''foo'', TStr ''1''), (''Foo'', TStr ''1'')]"
    by (simp add: add_mset_commute)
  moreover have "poetry_deps_to_pep621 example_env (TDict [(''Foo'', TStr ''1''), (''foo'', TStr ''1'')]) []
       = Inr ([''Foo 1'', ''foo 1''], [])"
    by code_simp
  moreover have "poetry_deps_to_pep621 example_env (TDict [(''foo'', TStr ''1''), (''Foo'', TStr ''1'')]) []
       = Inr ([''foo 1'', ''Foo 1''], [])"
    by code_simp
  ultimately show ?thesis by blast
qed

text \<open>
  C8, amended. When the builder returns a list for a table, the list is sorted by the
  lower-cased specifier; it is the stable sort of the specifiers of the entries (the
  interpreter key left out) in input order, so specifiers with equal keys keep that order;
  and for every permutation of the entries the builder returns a list again, with the same
  specifiers, which is the same list when no two specifiers share a lower-cased form.
\<close>

theorem dependency_order:
  assumes "poetry_deps_to_pep621 env (TDict items) warnings = Inr (out, warnings1)"
    and "mset items' = mset items"
  shows "sorted (map lower out)
       \<and> (\<exists>rendered.
            list_all2 (\<lambda>kv s. \<exists>w. dep_table_to_pep508 env (fst kv) (snd kv) [] = Inr (s, w))
              (filter (\<lambda>kv. lower (fst kv) \<noteq> ''python'') items) rendered
            \<and> mset out = mset rendered
            \<and> (\<forall>k. filter (\<lambda>s. lower s = k) out = filter (\<lambda>s. lower s = k) rendered))
       \<and> (\<exists>out' warnings2.
            poetry_deps_to_pep621 env (TDict items') warnings = Inr (out', warnings2)
            \<and> mset out' = mset out
            \<and> (inj_on lower (set out) \<longrightarrow> out' = out))"
proof -
  define keep where "keep = (\<lambda>kv :: string \<times> toml. lower (fst kv) \<noteq> ''python'')"
  define f where "f = (\<lambda>kv :: string \<times> toml. dep_table_to_pep508 env (fst kv) (snd kv) [])"
  define g where "g = (\<lambda>kv. fst (projr (f kv)))"
  define h where "h = (\<lambda>kv. snd (projr (f kv)))"
  define r where "r = map g (filter keep items)"
  define r' where "r' = map g (filter keep items')"
  from assms(1) obtain raw where raw: "deps_loop env items [] warnings = Inr (raw, warnings1)"
    and out: "out = sort_key lower raw"
    by (auto simp: poetry_deps_TDict ebind_Inr_iff)
  have ok: "\<forall>kv \<in> set items. keep kv \<longrightarrow> (\<exists>x. f kv = Inr x)"
    unfolding keep_def f_def using raw by (rule deps_loop_Inr_all)
  have "deps_loop env items [] warnings
          = Inr ([] @ r, warnings @ concat (map h (filter keep items)))"
    unfolding r_def h_def g_def f_def keep_def
    by (rule deps_loop_success) (use ok in \<open>simp add: keep_def f_def\<close>)
  with raw have raw_eq: "raw = r" by simp
  have out_r: "out = sort_key lower r"
    by (simp only: out raw_eq)
  have c1: "sorted (map lower out)"
    unfolding out_r by (rule sorted_sort_key)
  have g_ok: "\<exists>w. f kv = Inr (g kv, w)" if "kv \<in> set (filter keep items)" for kv
  proof -
    from that ok obtain x where "f kv = Inr x" by auto
    then show ?thesis by (cases x) (simp add: g_def)
  qed
  have l2: "list_all2 (\<lambda>kv s. \<exists>w. f kv = Inr (s, w)) (filter keep items) r"
    unfolding r_def list_all2_map2 by (rule list.rel_refl_strong) (rule g_ok)
  have m2: "mset out = mset r"
    unfolding out_r by (rule mset_sort)
  have st: "\<forall>k. filter (\<lambda>s. lower s = k) out = filter (\<lambda>s. lower s = k) r"
    unfolding out_r by (simp add: sort_key_stable)
  have c2: "\<exists>rendered.
      list_all2 (\<lambda>kv s. \<exists>w. dep_table_to_pep508 env (fst kv) (snd kv) [] = Inr (s, w))
        (filter (\<lambda>kv. lower (fst kv) \<noteq> ''python'') items) rendered
      \<and> mset out = mset rendered
      \<and> (\<forall>k. filter (\<lambda>s. lower s = k) out = filter (\<lambda>s. lower s = k) rendered)"
    using l2 m2 st unfolding f_def keep_def by (intro exI [of _ r] conjI)
  have "set items' = set items"
    using assms(2) by (rule mset_eq_setD)
  with ok have ok': "\<forall>kv \<in> set items'. keep kv \<longrightarrow> (\<exists>x. f kv = Inr x)"
    by simp
  have loop': "deps_loop env items' [] warnings
          = Inr ([] @ r', warnings @ concat (map h (filter keep items')))"
    unfolding r'_def h_def g_def f_def keep_def
    by (rule deps_loop_success) (use ok' in \<open>simp add: keep_def f_def\<close>)
  have res': "poetry_deps_to_pep621 env (TDict items') warnings
          = Inr (sort_key lower r', warnings @ concat (map h (filter keep items')))"
    by (simp add: poetry_deps_TDict loop')
  have perm: "mset r' = mset r"
    unfolding r'_def r_def mset_map mset_filter assms(2) ..
  have m: "mset (sort_key lower r') = mset out"
    unfolding out_r mset_sort by (rule perm)
  have inj: "sort_key lower r' = out" if "inj_on lower (set out)"
  proof -
    have "set out = set r"
      using m2 by (rule mset_eq_setD)
    moreover have "set r' = set r"
      using perm by (rule mset_eq_setD)
    ultimately have "inj_on lower (set r')"
      using that by simp
    with perm show ?thesis
      unfolding out_r by (rule sort_key_eq_sort_key)
  qed
  have c3: "\<exists>out' warnings2.
      poetry_deps_to_pep621 env (TDict items') warnings = Inr (out', warnings2)
      \<and> mset out' = mset out \<and> (inj_on lower (set out) \<longrightarrow> out' = out)"
    using res' m inj by (intro exI conjI impI)
  from c1 c2 c3 show ?thesis by (intro conjI)
qed

text \<open>
  C8, the amended statement on a table of three entries, one of them the interpreter key,
  and its reversal.
\<close>

theorem dependency_order_witness:
  "poetry_deps_to_pep621 example_env
     (TDict [(''requests'', TStr ''^2.31.0''), (''python'', TStr ''^3.11''),
             (''Alpha'', TStr ''1.0'')]) []
     = Inr ([''Alpha 1.0'', ''requests >=2.31.0,<3.0.0''], [])
   \<and> sorted (map lower [''Alpha 1.0'', ''requests >=2.31.0,<3.0.0''])
   \<and> (\<exists>out' warnings2.
        poetry_deps_to_pep621 example_env
          (TDict [(''Alpha'', TStr ''1.0''), (''python'', TStr ''^3.11''),
                  (''requests'', TStr ''^2.31.0'')]) []
          = Inr (out', warnings2)
        \<and> mset out' = mset [''Alpha 1.0'', ''requests >=2.31.0,<3.0.0'']
        \<and> (inj_on lower (set [''Alpha 1.0'', ''requests >=2.31.0,<3.0.0''])
             \<longrightarrow> out' = [''Alpha 1.0'', ''requests >=2.31.0,<3.0.0'']))"
proof -
  have h1: "poetry_deps_to_pep621 example_env
     (TDict [(''requests'', TStr ''^2.31.0''), (''python'', TStr ''^3.11''),
             (''Alpha'', TStr ''1.0'')]) []
     = Inr ([''Alpha 1.0'', ''requests >=2.31.0,<3.0.0''], [])"
    by code_simp
  have h2: "mset [(''Alpha'', TStr ''1.0''), (''python'', TStr ''^3.11''),
                  (''requests'', TStr ''^2.31.0'')]
          = mset [(''requests'', TStr ''^2.31.0''), (''python'', TStr ''^3.11''),
                  (''Alpha'', TStr ''1.0'')]"
    by (simp add: add_mset_commute)
  note t = dependency_order [OF h1 h2]
  show ?thesis
    apply (rule conjI [OF h1])
    apply (rule conjI [OF t [THEN conjunct1]])
    apply (rule t [THEN conjunct2, THEN conjunct2])
    done
qed

section \<open>The document serializer\<close>

lemma join_Cons: "join sep (x # xs) = x @ (if xs = [] then [] else sep @ join sep xs)"
  by (cases xs) simp_all

lemma join_append:
  "xs \<noteq> [] \<Longrightarrow> ys \<noteq> [] \<Longrightarrow> join sep (xs @ ys) = join sep xs @ sep @ join sep ys"
proof (induction xs)
  case Nil
  then show ?case by simp
next
  case (Cons x xs)
  then show ?case by (cases xs) (simp_all add: join_Cons)
qed

lemma join_snoc: "xs \<noteq> [] \<Longrightarrow> join sep (xs @ [y]) = join sep xs @ sep @ y"
  by (simp add: join_append)

lemma build_pep621_toml_Inr:
  "build_pep621_toml env poetry bs ws = Inr (text, ws') \<longleftrightarrow>
     (\<exists>proj lines. build_project env poetry ws = Inr (proj, ws')
        \<and> render_lines proj bs ws' = Inr lines
        \<and> text = join ''\<newline>'' lines @ ''\<newline>'')"
  by (auto simp: build_pep621_toml_def ebind_Inr_iff)

lemma render_lines_Inr:
  "render_lines proj bs ws = Inr lines \<longleftrightarrow>
     (\<exists>scalars license urls scripts build.
        scalar_lines proj = Inr scalars \<and> license_lines proj = Inr license
        \<and> urls_lines proj = Inr urls \<and> scripts_lines proj = Inr scripts
        \<and> build_system_lines bs = Inr build
        \<and> lines = [''[project]''] @ scalars @ authors_lines proj @ license @ urls
                   @ dependencies_lines proj @ optional_dependencies_lines proj @ scripts
                   @ build @ notes_lines ws)"
  by (auto simp: render_lines_def ebind_Inr_iff)

lemma build_project_Inr:
  "build_project env poetry ws = Inr (proj, ws') \<longleftrightarrow>
     (\<exists>authors dep_list ws1 dev_dependencies dev_deps.
        parse_authors (case map_of poetry ''authors'' of Some v \<Rightarrow> v | None \<Rightarrow> TList [])
          = Inr authors
      \<and> poetry_deps_to_pep621 env
          (case map_of poetry ''dependencies'' of Some v \<Rightarrow> v | None \<Rightarrow> TDict []) ws
          = Inr (dep_list, ws1)
      \<and> (case map_of (case map_of poetry ''group'' of Some (TDict g) \<Rightarrow> g | _ \<Rightarrow> []) ''dev'' of
              None \<Rightarrow> Inr (TDict [])
            | Some (TDict dev_group) \<Rightarrow>
                Inr (case map_of dev_group ''dependencies'' of Some v \<Rightarrow> v | None \<Rightarrow> TDict [])
            | Some _ \<Rightarrow> Inl AttributeError) = Inr dev_dependencies
      \<and> poetry_deps_to_pep621 env dev_dependencies ws1 = Inr (dev_deps, ws')
      \<and> proj =
          \<lparr>p_name = (case map_of poetry ''name'' of Some v \<Rightarrow> v | None \<Rightarrow> TStr ''unknown-package''),
           p_version = (case map_of poetry ''version'' of Some v \<Rightarrow> v | None \<Rightarrow> TStr ''0.1.0''),
           p_description = get_truthy poetry ''description'',
           p_readme = get_truthy poetry ''readme'',
           p_authors = authors,
           p_license = get_truthy poetry ''license'',
           p_urls = concat (map (\<lambda>(k, label). case get_truthy poetry k of
                                                  Some v \<Rightarrow> [(label, v)] | None \<Rightarrow> [])
                              url_labels),
           p_dependencies = dep_list,
           p_optional_dependencies = (if dev_deps \<noteq> [] then [(''dev'', dev_deps)] else []),
           p_scripts = get_truthy poetry ''scripts''\<rparr>)"
  unfolding build_project_def Let_def ebind_Inr_iff
  by (auto simp: ebind_Inr_iff)








lemma map_err_escape_strings: "map_err escape_value (map TStr xs) = Inr (map toml_escape xs)"
  by (induction xs) simp_all

lemma toml_escape_defaults:
  "toml_escape ''poetry-core>=1.9.0'' = ''poetry-core>=1.9.0''"
  "toml_escape ''poetry.core.masonry.api'' = ''poetry.core.masonry.api''"
  by (simp_all add: toml_escape_def replace_char_def)

lemma build_system_lines_default:
  assumes "\<not> truthy build_system"
  shows "build_system_lines build_system =
           Inr ['''', ''[build-system]'',
                ''requires = ['' @ join '', '' (map quoted [''poetry-core>=1.9.0'']) @ '']'',
                ''build-backend = '' @ quoted ''poetry.core.masonry.api'']"
  using assms
  by (simp add: build_system_lines_def default_build_system_def toml_escape_defaults)

lemma escape_values_strings:
  "map_err escape_value ys = Inr rs \<Longrightarrow> \<exists>xs. ys = map TStr xs \<and> rs = map toml_escape xs"
proof (induction ys arbitrary: rs)
  case Nil
  then show ?case by simp
next
  case (Cons y ys)
  from Cons.prems obtain r rs' where r: "escape_value y = Inr r"
    and rs': "map_err escape_value ys = Inr rs'" and rs: "rs = r # rs'"
    by (auto split: sum.splits)
  from r obtain s where s: "y = TStr s" "r = toml_escape s"
    by (cases y) auto
  from Cons.IH [OF rs'] obtain xs where "ys = map TStr xs" "rs' = map toml_escape xs"
    by auto
  with s rs have "y # ys = map TStr (s # xs) \<and> rs = map toml_escape (s # xs)"
    by simp
  then show ?case by (rule exI)
qed

lemma map_TStr_eq: "map (\<lambda>z. TStr (f z)) zs = map TStr xs \<Longrightarrow> xs = map f zs"
  by (induction zs arbitrary: xs) (auto simp: Cons_eq_map_conv)

lemma build_system_lines_table:
  assumes "build_system_lines (TDict d) = Inr sec" and "d \<noteq> []"
  shows "\<exists>rs b.
      sec = ['''', ''[build-system]'',
             ''requires = ['' @ join '', '' (map quoted rs) @ '']'',
             ''build-backend = '' @ quoted b]
    \<and> (\<exists>xs. py_iter (case map_of d ''requires'' of
                          Some v \<Rightarrow> v | None \<Rightarrow> TList [TStr ''poetry-core>=1.9.0''])
                 = Inr (map TStr xs)
               \<and> rs = map toml_escape xs)
        \<and> (\<exists>x. (case map_of d ''build-backend'' of
                    Some v \<Rightarrow> v | None \<Rightarrow> TStr ''poetry.core.masonry.api'') = TStr x
               \<and> b = toml_escape x)
        \<and> (map_of d ''requires'' = None \<longrightarrow> rs = [''poetry-core>=1.9.0''])
        \<and> (\<forall>xs. map_of d ''requires'' = Some (TList (map TStr xs)) \<longrightarrow> rs = map toml_escape xs)
        \<and> (\<forall>s. map_of d ''requires'' = Some (TStr s) \<longrightarrow> rs = map (\<lambda>c. toml_escape [c]) s)
        \<and> (\<forall>kvs. map_of d ''requires'' = Some (TDict kvs)
                \<longrightarrow> rs = map (\<lambda>kv. toml_escape (fst kv)) kvs)
        \<and> (map_of d ''build-backend'' = None \<longrightarrow> b = ''poetry.core.masonry.api'')
        \<and> (\<forall>x. map_of d ''build-backend'' = Some (TStr x) \<longrightarrow> b = toml_escape x)"
proof -
  let ?req = "case map_of d ''requires'' of
                Some v \<Rightarrow> v | None \<Rightarrow> TList [TStr ''poetry-core>=1.9.0'']"
  let ?bk = "case map_of d ''build-backend'' of
               Some v \<Rightarrow> v | None \<Rightarrow> TStr ''poetry.core.masonry.api''"
  from assms obtain reqs rs b where
    it: "py_iter ?req = Inr reqs"
    and rs: "map_err escape_value reqs = Inr rs"
    and b: "escape_value ?bk = Inr b"
    and sec: "sec = ['''', ''[build-system]'',
             ''requires = ['' @ join '', '' (map quoted rs) @ '']'',
             ''build-backend = '' @ quoted b]"
    by (auto simp: build_system_lines_def ebind_Inr_iff)
  from escape_values_strings [OF rs] obtain xs where
    xs: "reqs = map TStr xs" "rs = map toml_escape xs"
    by auto
  from b obtain x where x: "?bk = TStr x" "b = toml_escape x"
    by (cases ?bk) auto
  have e: "\<exists>xs. py_iter ?req = Inr (map TStr xs) \<and> rs = map toml_escape xs"
    using it xs by (intro exI [of _ xs]) simp
  have f: "\<exists>x. ?bk = TStr x \<and> b = toml_escape x"
    using x by (intro exI [of _ x]) simp
  have r1: "rs = [''poetry-core>=1.9.0'']" if "map_of d ''requires'' = None"
  proof -
    from it that xs(1) have "map (\<lambda>z. TStr z) [''poetry-core>=1.9.0''] = map TStr xs"
      by simp
    then have "xs = map (\<lambda>z. z) [''poetry-core>=1.9.0'']" by (rule map_TStr_eq)
    with xs(2) show ?thesis by (simp add: toml_escape_defaults)
  qed
  have r2: "rs = map toml_escape ys" if "map_of d ''requires'' = Some (TList (map TStr ys))" for ys
  proof -
    from it that xs(1) have "map (\<lambda>z. TStr z) ys = map TStr xs"
      by simp
    then have "xs = map (\<lambda>z. z) ys" by (rule map_TStr_eq)
    with xs(2) show ?thesis by simp
  qed
  have r3: "rs = map (\<lambda>c. toml_escape [c]) s" if "map_of d ''requires'' = Some (TStr s)" for s
  proof -
    from it that xs(1) have "map (\<lambda>c. TStr [c]) s = map TStr xs"
      by simp
    then have "xs = map (\<lambda>c. [c]) s" by (rule map_TStr_eq)
    with xs(2) show ?thesis by simp
  qed
  have r4: "rs = map (\<lambda>kv. toml_escape (fst kv)) kvs"
    if "map_of d ''requires'' = Some (TDict kvs)" for kvs
  proof -
    from it that xs(1) have "map (\<lambda>kv. TStr (fst kv)) kvs = map TStr xs"
      by simp
    then have "xs = map fst kvs" by (rule map_TStr_eq)
    with xs(2) show ?thesis by simp
  qed
  have b1: "b = ''poetry.core.masonry.api''" if "map_of d ''build-backend'' = None"
    using b that by (simp add: toml_escape_defaults)
  have b2: "b = toml_escape y" if "map_of d ''build-backend'' = Some (TStr y)" for y
    using b that by simp
  show ?thesis
    apply (rule exI [of _ rs], rule exI [of _ b])
    apply (intro conjI allI impI)
            apply (rule sec)
           apply (rule e)
          apply (rule f)
         apply (erule r1)
        apply (erule r2)
       apply (erule r3)
      apply (erule r4)
     apply (erule b1)
    apply (erule b2)
    done
qed

lemma build_text_suffix:
  assumes "build_pep621_toml env poetry build_system ws = Inr (text, ws')"
  shows "\<exists>sec. build_system_lines build_system = Inr sec
           \<and> suffix (join ''\<newline>'' (sec @ notes_lines ws') @ ''\<newline>'') text"
proof -
  from assms obtain proj lines where
    rl: "render_lines proj build_system ws' = Inr lines"
    and tx: "text = join ''\<newline>'' lines @ ''\<newline>''"
    unfolding build_pep621_toml_Inr by blast
  from rl obtain pre sec where sec: "build_system_lines build_system = Inr sec"
    and lines: "lines = (''[project]'' # pre) @ (sec @ notes_lines ws')"
    unfolding render_lines_Inr by auto
  have "sec \<noteq> []"
    using sec by (auto simp: build_system_lines_def ebind_Inr_iff split: toml.splits)
  then have "text = (join ''\<newline>'' (''[project]'' # pre) @ ''\<newline>'')
                    @ (join ''\<newline>'' (sec @ notes_lines ws') @ ''\<newline>'')"
    unfolding tx lines by (subst join_append) simp_all
  then have "suffix (join ''\<newline>'' (sec @ notes_lines ws') @ ''\<newline>'') text"
    by (rule suffixI)
  with sec show ?thesis by blast
qed

lemma build_system_lines_Inr:
  assumes "build_system_lines build_system = Inr sec"
  shows "\<exists>rs b.
      sec = ['''', ''[build-system]'',
             ''requires = ['' @ join '', '' (map quoted rs) @ '']'',
             ''build-backend = '' @ quoted b]
    \<and> (\<not> truthy build_system \<longrightarrow>
          rs = [''poetry-core>=1.9.0''] \<and> b = ''poetry.core.masonry.api'')
    \<and> (\<forall>d. build_system = TDict d \<and> d \<noteq> [] \<longrightarrow>
          (\<exists>xs. py_iter (case map_of d ''requires'' of
                          Some v \<Rightarrow> v | None \<Rightarrow> TList [TStr ''poetry-core>=1.9.0''])
                 = Inr (map TStr xs)
               \<and> rs = map toml_escape xs)
        \<and> (\<exists>x. (case map_of d ''build-backend'' of
                    Some v \<Rightarrow> v | None \<Rightarrow> TStr ''poetry.core.masonry.api'') = TStr x
               \<and> b = toml_escape x)
        \<and> (map_of d ''requires'' = None \<longrightarrow> rs = [''poetry-core>=1.9.0''])
        \<and> (\<forall>xs. map_of d ''requires'' = Some (TList (map TStr xs)) \<longrightarrow> rs = map toml_escape xs)
        \<and> (\<forall>s. map_of d ''requires'' = Some (TStr s) \<longrightarrow> rs = map (\<lambda>c. toml_escape [c]) s)
        \<and> (\<forall>kvs. map_of d ''requires'' = Some (TDict kvs)
                \<longrightarrow> rs = map (\<lambda>kv. toml_escape (fst kv)) kvs)
        \<and> (map_of d ''build-backend'' = None \<longrightarrow> b = ''poetry.core.masonry.api'')
        \<and> (\<forall>x. map_of d ''build-backend'' = Some (TStr x) \<longrightarrow> b = toml_escape x))"
proof (cases "truthy build_system")
  case False
  have nd: "build_system \<noteq> TDict d \<or> d = []" for d
    using False by (cases build_system) auto
  have "sec = ['''', ''[build-system]'',
                ''requires = ['' @ join '', '' (map quoted [''poetry-core>=1.9.0'']) @ '']'',
                ''build-backend = '' @ quoted ''poetry.core.masonry.api'']"
    using assms False by (simp add: build_system_lines_default)
  then show ?thesis
    apply (intro exI [of _ "[''poetry-core>=1.9.0'']"] exI [of _ "''poetry.core.masonry.api''"]
        conjI)
      apply assumption
     apply (rule impI, rule conjI, rule refl, rule refl)
    using nd apply fast
    done
next
  case True
  from assms True obtain d where d: "build_system = TDict d"
    by (cases build_system) (simp_all add: build_system_lines_def)
  with True have ne: "d \<noteq> []" by simp
  from build_system_lines_table [OF assms [unfolded d] ne] obtain rs b where
    s: "sec = ['''', ''[build-system]'',
             ''requires = ['' @ join '', '' (map quoted rs) @ '']'',
             ''build-backend = '' @ quoted b]"
    and c: "(\<exists>xs. py_iter (case map_of d ''requires'' of
                          Some v \<Rightarrow> v | None \<Rightarrow> TList [TStr ''poetry-core>=1.9.0''])
                 = Inr (map TStr xs)
               \<and> rs = map toml_escape xs)
        \<and> (\<exists>x. (case map_of d ''build-backend'' of
                    Some v \<Rightarrow> v | None \<Rightarrow> TStr ''poetry.core.masonry.api'') = TStr x
               \<and> b = toml_escape x)
        \<and> (map_of d ''requires'' = None \<longrightarrow> rs = [''poetry-core>=1.9.0''])
        \<and> (\<forall>xs. map_of d ''requires'' = Some (TList (map TStr xs)) \<longrightarrow> rs = map toml_escape xs)
        \<and> (\<forall>s. map_of d ''requires'' = Some (TStr s) \<longrightarrow> rs = map (\<lambda>c. toml_escape [c]) s)
        \<and> (\<forall>kvs. map_of d ''requires'' = Some (TDict kvs)
                \<longrightarrow> rs = map (\<lambda>kv. toml_escape (fst kv)) kvs)
        \<and> (map_of d ''build-backend'' = None \<longrightarrow> b = ''poetry.core.masonry.api'')
        \<and> (\<forall>x. map_of d ''build-backend'' = Some (TStr x) \<longrightarrow> b = toml_escape x)"
    by (elim exE conjE) (rule that, assumption, intro conjI exI, assumption+)
  have tb: "(\<exists>xs. py_iter (case map_of d' ''requires'' of
                          Some v \<Rightarrow> v | None \<Rightarrow> TList [TStr ''poetry-core>=1.9.0''])
                 = Inr (map TStr xs)
               \<and> rs = map toml_escape xs)
        \<and> (\<exists>x. (case map_of d' ''build-backend'' of
                    Some v \<Rightarrow> v | None \<Rightarrow> TStr ''poetry.core.masonry.api'') = TStr x
               \<and> b = toml_escape x)
        \<and> (map_of d' ''requires'' = None \<longrightarrow> rs = [''poetry-core>=1.9.0''])
        \<and> (\<forall>xs. map_of d' ''requires'' = Some (TList (map TStr xs)) \<longrightarrow> rs = map toml_escape xs)
        \<and> (\<forall>s. map_of d' ''requires'' = Some (TStr s) \<longrightarrow> rs = map (\<lambda>c. toml_escape [c]) s)
        \<and> (\<forall>kvs. map_of d' ''requires'' = Some (TDict kvs)
                \<longrightarrow> rs = map (\<lambda>kv. toml_escape (fst kv)) kvs)
        \<and> (map_of d' ''build-backend'' = None \<longrightarrow> b = ''poetry.core.masonry.api'')
        \<and> (\<forall>x. map_of d' ''build-backend'' = Some (TStr x) \<longrightarrow> b = toml_escape x)"
    if "build_system = TDict d' \<and> d' \<noteq> []" for d'
  proof -
    from that d have dd: "d' = d" by simp
    show ?thesis unfolding dd by (rule c)
  qed
  show ?thesis
    apply (intro exI [of _ rs] exI [of _ b] conjI)
      apply (rule s)
     apply (rule impI, erule notE, rule True)
    apply (intro allI impI, erule tb)
    done
qed

text \<open>
  C6, amended. The returned text ends with the build-system table (followed only by the
  migration notes), and the table has exactly the keys \<open>requires\<close> and \<open>build-backend\<close>.
  With no build-system table in the source, or an empty one, both take the defaults. With a
  non-empty table each of the two is read from the source when the key is there, and is
  the default when it is missing; no other key of the source table is written. What is
  read for \<open>requires\<close> is iterated, and every item has to be a string: an array of strings
  gives its elements, a string gives its characters one by one, a table gives its keys.
  What is read for \<open>build-backend\<close> has to be a string. Each string is written between
  double quotes with backslashes and double quotes escaped.
\<close>

theorem build_system_section:
  assumes "build_pep621_toml env poetry build_system ws = Inr (text, ws')"
  shows "\<exists>rs b.
      suffix (join ''\<newline>''
                (['''', ''[build-system]'',
                  ''requires = ['' @ join '', '' (map quoted rs) @ '']'',
                  ''build-backend = '' @ quoted b] @ notes_lines ws') @ ''\<newline>'') text
    \<and> (\<not> truthy build_system \<longrightarrow>
          rs = [''poetry-core>=1.9.0''] \<and> b = ''poetry.core.masonry.api'')
    \<and> (\<forall>d. build_system = TDict d \<and> d \<noteq> [] \<longrightarrow>
          (\<exists>xs. py_iter (case map_of d ''requires'' of
                          Some v \<Rightarrow> v | None \<Rightarrow> TList [TStr ''poetry-core>=1.9.0''])
                 = Inr (map TStr xs)
               \<and> rs = map toml_escape xs)
        \<and> (\<exists>x. (case map_of d ''build-backend'' of
                    Some v \<Rightarrow> v | None \<Rightarrow> TStr ''poetry.core.masonry.api'') = TStr x
               \<and> b = toml_escape x)
        \<and> (map_of d ''requires'' = None \<longrightarrow> rs = [''poetry-core>=1.9.0''])
        \<and> (\<forall>xs. map_of d ''requires'' = Some (TList (map TStr xs)) \<longrightarrow> rs = map toml_escape xs)
        \<and> (\<forall>s. map_of d ''requires'' = Some (TStr s) \<longrightarrow> rs = map (\<lambda>c. toml_escape [c]) s)
        \<and> (\<forall>kvs. map_of d ''requires'' = Some (TDict kvs)
                \<longrightarrow> rs = map (\<lambda>kv. toml_escape (fst kv)) kvs)
        \<and> (map_of d ''build-backend'' = None \<longrightarrow> b = ''poetry.core.masonry.api'')
        \<and> (\<forall>x. map_of d ''build-backend'' = Some (TStr x) \<longrightarrow> b = toml_escape x))"
proof -
  from build_text_suffix [OF assms]
  obtain sec where sec: "build_system_lines build_system = Inr sec"
    and sf: "suffix (join ''\<newline>'' (sec @ notes_lines ws') @ ''\<newline>'') text"
    by (elim exE conjE) (rule that)
  from build_system_lines_Inr [OF sec] obtain rs b where
    s: "sec = ['''', ''[build-system]'',
             ''requires = ['' @ join '', '' (map quoted rs) @ '']'',
             ''build-backend = '' @ quoted b]"
    and nt: "\<not> truthy build_system \<longrightarrow>
          rs = [''poetry-core>=1.9.0''] \<and> b = ''poetry.core.masonry.api''"
    and tb: "\<forall>d. build_system = TDict d \<and> d \<noteq> [] \<longrightarrow>
          (\<exists>xs. py_iter (case map_of d ''requires'' of
                          Some v \<Rightarrow> v | None \<Rightarrow> TList [TStr ''poetry-core>=1.9.0''])
                 = Inr (map TStr xs)
               \<and> rs = map toml_escape xs)
        \<and> (\<exists>x. (case map_of d ''build-backend'' of
                    Some v \<Rightarrow> v | None \<Rightarrow> TStr ''poetry.core.masonry.api'') = TStr x
               \<and> b = toml_escape x)
        \<and> (map_of d ''requires'' = None \<longrightarrow> rs = [''poetry-core>=1.9.0''])
        \<and> (\<forall>xs. map_of d ''requires'' = Some (TList (map TStr xs)) \<longrightarrow> rs = map toml_escape xs)
        \<and> (\<forall>s. map_of d ''requires'' = Some (TStr s) \<longrightarrow> rs = map (\<lambda>c. toml_escape [c]) s)
        \<and> (\<forall>kvs. map_of d ''requires'' = Some (TDict kvs)
                \<longrightarrow> rs = map (\<lambda>kv. toml_escape (fst kv)) kvs)
        \<and> (map_of d ''build-backend'' = None \<longrightarrow> b = ''poetry.core.masonry.api'')
        \<and> (\<forall>x. map_of d ''build-backend'' = Some (TStr x) \<longrightarrow> b = toml_escape x)"
    by (elim exE conjE) (rule that)
  show ?thesis
    apply (intro exI [of _ rs] exI [of _ b] conjI)
      apply (rule sf [unfolded s])
     apply (rule nt)
    apply (rule tb)
    done
qed

text \<open>
  A source table with both keys is written as it is; one whose \<open>requires\<close> is a string
  is written too, with one item for each character.
\<close>

theorem build_system_section_witness:
  \<open>build_pep621_toml example_env [(''name'', TStr ''demo'')]
     (TDict [(''requires'', TList [TStr ''hatchling'']), (''build-backend'', TStr ''hatchling.build'')]) []
     = Inr (''[project]\<newline>name = "demo"\<newline>version = "0.1.0"\<newline>\<newline>[build-system]\<newline>requires = ["hatchling"]\<newline>build-backend = "hatchling.build"\<newline>'', [])
   \<and> (\<exists>rs b.
        suffix (join ''\<newline>''
                (['''', ''[build-system]'',
                  ''requires = ['' @ join '', '' (map quoted rs) @ '']'',
                  ''build-backend = '' @ quoted b] @ notes_lines []) @ ''\<newline>'')
          ''[project]\<newline>name = "demo"\<newline>version = "0.1.0"\<newline>\<newline>[build-system]\<newline>requires = ["hatchling"]\<newline>build-backend = "hatchling.build"\<newline>''
        \<and> rs = [''hatchling''] \<and> b = ''hatchling.build'')
   \<and> build_pep621_toml example_env [(''name'', TStr ''demo'')] (TDict [(''requires'', TStr ''ab'')]) []
     = Inr (''[project]\<newline>name = "demo"\<newline>version = "0.1.0"\<newline>\<newline>[build-system]\<newline>requires = ["a", "b"]\<newline>build-backend = "poetry.core.masonry.api"\<newline>'', [])
   \<and> (\<exists>rs b.
        suffix (join ''\<newline>''
                (['''', ''[build-system]'',
                  ''requires = ['' @ join '', '' (map quoted rs) @ '']'',
                  ''build-backend = '' @ quoted b] @ notes_lines []) @ ''\<newline>'')
          ''[project]\<newline>name = "demo"\<newline>version = "0.1.0"\<newline>\<newline>[build-system]\<newline>requires = ["a", "b"]\<newline>build-backend = "poetry.core.masonry.api"\<newline>''
        \<and> rs = [''a'', ''b''] \<and> b = ''poetry.core.masonry.api'')\<close>
proof -
  have h: \<open>build_pep621_toml example_env [(''name'', TStr ''demo'')]
     (TDict [(''requires'', TList [TStr ''hatchling'']), (''build-backend'', TStr ''hatchling.build'')]) []
     = Inr (''[project]\<newline>name = "demo"\<newline>version = "0.1.0"\<newline>\<newline>[build-system]\<newline>requires = ["hatchling"]\<newline>build-backend = "hatchling.build"\<newline>'', [])\<close>
    by code_simp
  from build_system_section [OF h] obtain rs b where
    sf: \<open>suffix (join ''\<newline>''
                (['''', ''[build-system]'',
                  ''requires = ['' @ join '', '' (map quoted rs) @ '']'',
                  ''build-backend = '' @ quoted b] @ notes_lines []) @ ''\<newline>'')
          ''[project]\<newline>name = "demo"\<newline>version = "0.1.0"\<newline>\<newline>[build-system]\<newline>requires = ["hatchling"]\<newline>build-backend = "hatchling.build"\<newline>''\<close>
    and tb: "\<forall>d. TDict [(''requires'', TList [TStr ''hatchling'']),
                      (''build-backend'', TStr ''hatchling.build'')] = TDict d \<and> d \<noteq> [] \<longrightarrow>
          (\<exists>xs. py_iter (case map_of d ''requires'' of
                          Some v \<Rightarrow> v | None \<Rightarrow> TList [TStr ''poetry-core>=1.9.0''])
                 = Inr (map TStr xs)
               \<and> rs = map toml_escape xs)
        \<and> (\<exists>x. (case map_of d ''build-backend'' of
                    Some v \<Rightarrow> v | None \<Rightarrow> TStr ''poetry.core.masonry.api'') = TStr x
               \<and> b = toml_escape x)
        \<and> (map_of d ''requires'' = None \<longrightarrow> rs = [''poetry-core>=1.9.0''])
        \<and> (\<forall>xs. map_of d ''requires'' = Some (TList (map TStr xs)) \<longrightarrow> rs = map toml_escape xs)
        \<and> (\<forall>s. map_of d ''requires'' = Some (TStr s) \<longrightarrow> rs = map (\<lambda>c. toml_escape [c]) s)
        \<and> (\<forall>kvs. map_of d ''requires'' = Some (TDict kvs)
                \<longrightarrow> rs = map (\<lambda>kv. toml_escape (fst kv)) kvs)
        \<and> (map_of d ''build-backend'' = None \<longrightarrow> b = ''poetry.core.masonry.api'')
        \<and> (\<forall>x. map_of d ''build-backend'' = Some (TStr x) \<longrightarrow> b = toml_escape x)"
    by (elim exE conjE) (rule that)
  have ne: "[(''requires'', TList [TStr ''hatchling'']), (''build-backend'', TStr ''hatchling.build'')]
            \<noteq> []"
    by simp
  note t = tb [rule_format, OF conjI [OF refl ne]]
  have d1: "map_of [(''requires'', TList [TStr ''hatchling'']),
                    (''build-backend'', TStr ''hatchling.build'')] ''requires''
            = Some (TList (map TStr [''hatchling'']))"
    by simp
  have d2: "map_of [(''requires'', TList [TStr ''hatchling'']),
                    (''build-backend'', TStr ''hatchling.build'')] ''build-backend''
            = Some (TStr ''hatchling.build'')"
    by simp
  have e1: "map toml_escape [''hatchling''] = [''hatchling'']"
    by (simp add: toml_escape_def replace_char_def)
  have e2: "toml_escape ''hatchling.build'' = ''hatchling.build''"
    by (simp add: toml_escape_def replace_char_def)
  have rs: "rs = [''hatchling'']"
    using t [THEN conjunct2, THEN conjunct2, THEN conjunct2, THEN conjunct1, rule_format, OF d1]
    by (simp only: e1)
  have b: "b = ''hatchling.build''"
    using t [THEN conjunct2, THEN conjunct2, THEN conjunct2, THEN conjunct2, THEN conjunct2,
        THEN conjunct2, THEN conjunct2, rule_format, OF d2]
    by (simp only: e2)
  have g: \<open>build_pep621_toml example_env [(''name'', TStr ''demo'')] (TDict [(''requires'', TStr ''ab'')]) []
     = Inr (''[project]\<newline>name = "demo"\<newline>version = "0.1.0"\<newline>\<newline>[build-system]\<newline>requires = ["a", "b"]\<newline>build-backend = "poetry.core.masonry.api"\<newline>'', [])\<close>
    by code_simp
  from build_system_section [OF g] obtain rs' b' where
    sf': \<open>suffix (join ''\<newline>''
                (['''', ''[build-system]'',
                  ''requires = ['' @ join '', '' (map quoted rs') @ '']'',
                  ''build-backend = '' @ quoted b'] @ notes_lines []) @ ''\<newline>'')
          ''[project]\<newline>name = "demo"\<newline>version = "0.1.0"\<newline>\<newline>[build-system]\<newline>requires = ["a", "b"]\<newline>build-backend = "poetry.core.masonry.api"\<newline>''\<close>
    and tb': "\<forall>d. TDict [(''requires'', TStr ''ab'')] = TDict d \<and> d \<noteq> [] \<longrightarrow>
          (\<exists>xs. py_iter (case map_of d ''requires'' of
                          Some v \<Rightarrow> v | None \<Rightarrow> TList [TStr ''poetry-core>=1.9.0''])
                 = Inr (map TStr xs)
               \<and> rs' = map toml_escape xs)
        \<and> (\<exists>x. (case map_of d ''build-backend'' of
                    Some v \<Rightarrow> v | None \<Rightarrow> TStr ''poetry.core.masonry.api'') = TStr x
               \<and> b' = toml_escape x)
        \<and> (map_of d ''requires'' = None \<longrightarrow> rs' = [''poetry-core>=1.9.0''])
        \<and> (\<forall>xs. map_of d ''requires'' = Some (TList (map TStr xs)) \<longrightarrow> rs' = map toml_escape xs)
        \<and> (\<forall>s. map_of d ''requires'' = Some (TStr s) \<longrightarrow> rs' = map (\<lambda>c. toml_escape [c]) s)
        \<and> (\<forall>kvs. map_of d ''requires'' = Some (TDict kvs)
                \<longrightarrow> rs' = map (\<lambda>kv. toml_escape (fst kv)) kvs)
        \<and> (map_of d ''build-backend'' = None \<longrightarrow> b' = ''poetry.core.masonry.api'')
        \<and> (\<forall>x. map_of d ''build-backend'' = Some (TStr x) \<longrightarrow> b' = toml_escape x)"
    by (elim exE conjE) (rule that)
  have ne': "[(''requires'', TStr ''ab'')] \<noteq> []"
    by simp
  note t' = tb' [rule_format, OF conjI [OF refl ne']]
  have d3: "map_of [(''requires'', TStr ''ab'')] ''requires'' = Some (TStr ''ab'')"
    by simp
  have d4: "map_of [(''requires'', TStr ''ab'')] ''build-backend'' = None"
    by simp
  have e3: "map (\<lambda>c. toml_escape [c]) ''ab'' = [''a'', ''b'']"
    by (simp add: toml_escape_def replace_char_def)
  have rs': "rs' = [''a'', ''b'']"
    using t' [THEN conjunct2, THEN conjunct2, THEN conjunct2, THEN conjunct2, THEN conjunct1,
        rule_format, OF d3]
    by (simp only: e3)
  have b': "b' = ''poetry.core.masonry.api''"
    using t' [THEN conjunct2, THEN conjunct2, THEN conjunct2, THEN conjunct2, THEN conjunct2,
        THEN conjunct2, THEN conjunct1, rule_format, OF d4] .
  show ?thesis
    apply (rule conjI [OF h])
    apply (rule conjI)
     apply (rule exI [of _ rs], rule exI [of _ b])
     apply (intro conjI)
       apply (rule sf)
      apply (rule rs)
     apply (rule b)
    apply (rule conjI [OF g])
    apply (rule exI [of _ rs'], rule exI [of _ b'])
    apply (intro conjI)
      apply (rule sf')
     apply (rule rs')
    apply (rule b')
    done
qed

text \<open>
  C6, as stated, fails: a source table with \<open>requires\<close> and \<open>backend-path\<close> and no
  \<open>build-backend\<close> comes out with a \<open>build-backend\<close> key added and \<open>backend-path\<close> dropped.
\<close>

theorem build_system_counterexample:
  \<open>map_of [(''requires'', TList [TStr ''setuptools'']), (''backend-path'', TList [TStr ''.''])]
       ''build-backend'' = None
   \<and> map_of [(''requires'', TList [TStr ''setuptools'']), (''backend-path'', TList [TStr ''.''])]
       ''backend-path'' = Some (TList [TStr ''.''])
   \<and> build_pep621_toml example_env [(''name'', TStr ''demo'')]
       (TDict [(''requires'', TList [TStr ''setuptools'']), (''backend-path'', TList [TStr ''.''])]) []
     = Inr (''[project]\<newline>name = "demo"\<newline>version = "0.1.0"\<newline>\<newline>[build-system]\<newline>requires = ["setuptools"]\<newline>build-backend = "poetry.core.masonry.api"\<newline>'', [])\<close>
  by code_simp

lemma dev_dependencies_value:
  assumes "(case map_of (case map_of poetry ''group'' of Some (TDict g) \<Rightarrow> g | _ \<Rightarrow> []) ''dev'' of
              None \<Rightarrow> Inr (TDict [])
            | Some (TDict dev_group) \<Rightarrow>
                Inr (case map_of dev_group ''dependencies'' of Some v \<Rightarrow> v | None \<Rightarrow> TDict [])
            | Some _ \<Rightarrow> Inl AttributeError) = Inr dev_dependencies"
  shows "dev_dependencies =
           (case map_of poetry ''group'' of
              Some (TDict g) \<Rightarrow>
                (case map_of g ''dev'' of
                   Some (TDict d) \<Rightarrow>
                     (case map_of d ''dependencies'' of Some v \<Rightarrow> v | None \<Rightarrow> TDict [])
                 | _ \<Rightarrow> TDict [])
            | _ \<Rightarrow> TDict [])"
  using assms by (auto split: option.splits toml.splits)

text \<open>
  C4, amended. The only group that reaches the output is the one named \<open>dev\<close>. Whenever a
  text is returned, \<open>dev_deps\<close> being the specifiers of the \<open>dev\<close> group (empty when there
  is no such group), the lines between the dependencies array and the scripts table are:
  nothing when \<open>dev_deps\<close> is empty; otherwise a blank line, the header
  \<open>[project.optional-dependencies]\<close> and the single entry \<open>dev = [...]\<close>.
\<close>

theorem optional_dependencies_dev_only:
  assumes "build_pep621_toml env poetry build_system ws = Inr (text, ws')"
  shows "\<exists>proj dev_deps w scalars license urls scripts build.
      build_project env poetry ws = Inr (proj, ws')
    \<and> poetry_deps_to_pep621 env
         (case map_of poetry ''group'' of
            Some (TDict g) \<Rightarrow>
              (case map_of g ''dev'' of
                 Some (TDict d) \<Rightarrow>
                   (case map_of d ''dependencies'' of Some v \<Rightarrow> v | None \<Rightarrow> TDict [])
               | _ \<Rightarrow> TDict [])
          | _ \<Rightarrow> TDict []) w = Inr (dev_deps, ws')
    \<and> p_optional_dependencies proj = (if dev_deps = [] then [] else [(''dev'', dev_deps)])
    \<and> scalar_lines proj = Inr scalars \<and> license_lines proj = Inr license
    \<and> urls_lines proj = Inr urls \<and> scripts_lines proj = Inr scripts
    \<and> build_system_lines build_system = Inr build
    \<and> text = join ''\<newline>''
               ([''[project]''] @ scalars @ authors_lines proj @ license @ urls
                @ dependencies_lines proj
                @ (if dev_deps = [] then []
                   else ['''', ''[project.optional-dependencies]'',
                         ''dev = '' @ dump_toml_array_str dev_deps 2])
                @ scripts @ build @ notes_lines ws') @ ''\<newline>''"
proof -
  from assms obtain proj lines where bp: "build_project env poetry ws = Inr (proj, ws')"
    and rl: "render_lines proj build_system ws' = Inr lines"
    and tx: "text = join ''\<newline>'' lines @ ''\<newline>''"
    unfolding build_pep621_toml_Inr by (elim exE conjE) (rule that)
  from bp obtain w dev_dependencies dev_deps where
    dv: "(case map_of (case map_of poetry ''group'' of Some (TDict g) \<Rightarrow> g | _ \<Rightarrow> []) ''dev'' of
              None \<Rightarrow> Inr (TDict [])
            | Some (TDict dev_group) \<Rightarrow>
                Inr (case map_of dev_group ''dependencies'' of Some v \<Rightarrow> v | None \<Rightarrow> TDict [])
            | Some _ \<Rightarrow> Inl AttributeError) = Inr dev_dependencies"
    and dd: "poetry_deps_to_pep621 env dev_dependencies w = Inr (dev_deps, ws')"
    and po: "p_optional_dependencies proj = (if dev_deps \<noteq> [] then [(''dev'', dev_deps)] else [])"
    unfolding build_project_Inr by (elim exE conjE) (rule that, assumption, assumption, simp)
  note dd' = dd [unfolded dev_dependencies_value [OF dv]]
  have po': "p_optional_dependencies proj = (if dev_deps = [] then [] else [(''dev'', dev_deps)])"
    using po by simp
  have ol: "optional_dependencies_lines proj
      = (if dev_deps = [] then []
         else ['''', ''[project.optional-dependencies]'',
               ''dev = '' @ dump_toml_array_str dev_deps 2])"
    by (simp add: optional_dependencies_lines_def po')
  from rl obtain scalars license urls scripts build where
    sc: "scalar_lines proj = Inr scalars" and li: "license_lines proj = Inr license"
    and ur: "urls_lines proj = Inr urls" and sr: "scripts_lines proj = Inr scripts"
    and bu: "build_system_lines build_system = Inr build"
    and lines: "lines = [''[project]''] @ scalars @ authors_lines proj @ license @ urls
                   @ dependencies_lines proj @ optional_dependencies_lines proj @ scripts
                   @ build @ notes_lines ws'"
    unfolding render_lines_Inr by (elim exE conjE) (rule that)
  show ?thesis
    apply (rule exI [of _ proj], rule exI [of _ dev_deps], rule exI [of _ w],
        rule exI [of _ scalars], rule exI [of _ license], rule exI [of _ urls],
        rule exI [of _ scripts], rule exI [of _ build])
    apply (intro conjI)
            apply (rule bp)
           apply (rule dd')
          apply (rule po')
         apply (rule sc)
        apply (rule li)
       apply (rule ur)
      apply (rule sr)
     apply (rule bu)
    apply (rule tx [unfolded lines ol])
    done
qed

text \<open>
  C4, as stated, fails: a document with the groups \<open>test\<close> and \<open>docs\<close> comes out with no
  optional-dependencies table at all.
\<close>

theorem optional_dependencies_counterexample:
  \<open>build_pep621_toml example_env
     [(''name'', TStr ''demo''),
      (''group'',
       TDict [(''test'', TDict [(''dependencies'', TDict [(''pytest'', TStr ''~7.4'')])]),
              (''docs'', TDict [(''dependencies'', TDict [(''sphinx'', TStr ''^7.0'')])])])]
     (TDict []) []
   = Inr (''[project]\<newline>name = "demo"\<newline>version = "0.1.0"\<newline>\<newline>[build-system]\<newline>requires = ["poetry-core>=1.9.0"]\<newline>build-backend = "poetry.core.masonry.api"\<newline>'', [])\<close>
  by code_simp

text \<open>A document with the groups \<open>test\<close> and \<open>dev\<close>: only \<open>dev\<close> is written.\<close>

theorem optional_dependencies_dev_only_witness:
  \<open>\<exists>proj dev_deps w scalars license urls scripts build.
      build_project example_env
        [(''name'', TStr ''demo''),
         (''group'',
          TDict [(''test'', TDict [(''dependencies'', TDict [(''tox'', TStr ''*'')])]),
                 (''dev'', TDict [(''dependencies'', TDict [(''pytest'', TStr ''~7.4'')])])])] []
        = Inr (proj, [])
    \<and> poetry_deps_to_pep621 example_env
         (case map_of
                 [(''name'', TStr ''demo''),
                  (''group'',
                   TDict [(''test'', TDict [(''dependencies'', TDict [(''tox'', TStr ''*'')])]),
                          (''dev'', TDict [(''dependencies'', TDict [(''pytest'', TStr ''~7.4'')])])])]
                 ''group'' of
            Some (TDict g) \<Rightarrow>
              (case map_of g ''dev'' of
                 Some (TDict d) \<Rightarrow>
                   (case map_of d ''dependencies'' of Some v \<Rightarrow> v | None \<Rightarrow> TDict [])
               | _ \<Rightarrow> TDict [])
          | _ \<Rightarrow> TDict []) w = Inr (dev_deps, [])
    \<and> p_optional_dependencies proj = (if dev_deps = [] then [] else [(''dev'', dev_deps)])
    \<and> scalar_lines proj = Inr scalars \<and> license_lines proj = Inr license
    \<and> urls_lines proj = Inr urls \<and> scripts_lines proj = Inr scripts
    \<and> build_system_lines (TDict []) = Inr build
    \<and> ''[project]\<newline>name = "demo"\<newline>version = "0.1.0"\<newline>\<newline>[project.optional-dependencies]\<newline>dev = [\<newline>  "pytest >=7.4,<7.5"\<newline>]\<newline>\<newline>[build-system]\<newline>requires = ["poetry-core>=1.9.0"]\<newline>build-backend = "poetry.core.masonry.api"\<newline>''
        = join ''\<newline>''
               ([''[project]''] @ scalars @ authors_lines proj @ license @ urls
                @ dependencies_lines proj
                @ (if dev_deps = [] then []
                   else ['''', ''[project.optional-dependencies]'',
                         ''dev = '' @ dump_toml_array_str dev_deps 2])
                @ scripts @ build @ notes_lines []) @ ''\<newline>''\<close>
proof -
  have h: \<open>build_pep621_toml example_env
     [(''name'', TStr ''demo''),
      (''group'',
       TDict [(''test'', TDict [(''dependencies'', TDict [(''tox'', TStr ''*'')])]),
              (''dev'', TDict [(''dependencies'', TDict [(''pytest'', TStr ''~7.4'')])])])]
     (TDict []) []
   = Inr (''[project]\<newline>name = "demo"\<newline>version = "0.1.0"\<newline>\<newline>[project.optional-dependencies]\<newline>dev = [\<newline>  "pytest >=7.4,<7.5"\<newline>]\<newline>\<newline>[build-system]\<newline>requires = ["poetry-core>=1.9.0"]\<newline>build-backend = "poetry.core.masonry.api"\<newline>'', [])\<close>
    by code_simp
  show ?thesis
    by (rule optional_dependencies_dev_only [OF h])
qed

subsection \<open>The arrays of the output\<close>

lemma join_comma_lines:
  "xs \<noteq> [] \<Longrightarrow>
     join ('','' @ sep) xs = join sep (map (\<lambda>x. x @ '','') (butlast xs) @ [last xs])"
proof (induction xs rule: list_nonempty_induct)
  case (single x)
  then show ?case by simp
next
  case (cons x xs)
  then show ?case by (cases xs) (simp_all add: join_Cons)
qed

lemma join_flatten_hd: "M \<noteq> [] \<Longrightarrow> join sep (join sep M # B) = join sep (M @ B)"
  by (cases "B = []") (simp_all add: join_Cons join_append)

lemma join_flatten: "M \<noteq> [] \<Longrightarrow> join sep (A @ join sep M # B) = join sep (A @ M @ B)"
proof (cases "A = []")
  case True
  moreover assume "M \<noteq> []"
  ultimately show ?thesis by (simp add: join_flatten_hd)
next
  case False
  assume M: "M \<noteq> []"
  have "join sep (A @ join sep M # B) = join sep A @ sep @ join sep (join sep M # B)"
    using False by (intro join_append) simp_all
  also have "\<dots> = join sep A @ sep @ join sep (M @ B)"
    by (subst join_flatten_hd [OF M]) (rule refl)
  also have "\<dots> = join sep (A @ M @ B)"
    using False M by (intro join_append [symmetric]) simp_all
  finally show ?thesis .
qed

lemma join_flatten_if:
  assumes "\<not> c \<Longrightarrow> M \<noteq> []"
  shows "join sep (X @ (if c then [] else P @ [join sep M]) @ Y)
       = join sep (X @ (if c then [] else P @ M) @ Y)"
proof (cases c)
  case True
  then show ?thesis by simp
next
  case False
  with assms have M: "M \<noteq> []" by simp
  have "join sep ((X @ P) @ join sep M # Y) = join sep ((X @ P) @ M @ Y)"
    using M by (rule join_flatten)
  with False show ?thesis by simp
qed

lemma key_array_lines:
  assumes "arr \<noteq> []"
  shows "key @ '' = '' @ dump_toml_array_str arr 2 =
     join ''\<newline>''
       ([key @ '' = [''] @ map (\<lambda>x. ''  '' @ quoted (toml_escape x) @ '','') (butlast arr)
        @ [''  '' @ quoted (toml_escape (last arr)), '']''])"
proof -
  let ?f = "\<lambda>x. ''  '' @ quoted (toml_escape x)"
  have m: "map ?f arr \<noteq> []" using assms by simp
  have j: "join '',\<newline>'' (map ?f arr)
        = join ''\<newline>'' (map (\<lambda>x. x @ '','') (butlast (map ?f arr)) @ [last (map ?f arr)])"
    using join_comma_lines [OF m, of "''\<newline>''"] by simp
  have bl: "map (\<lambda>x. x @ '','') (butlast (map ?f arr)) @ [last (map ?f arr)]
        = map (\<lambda>x. ?f x @ '','') (butlast arr) @ [?f (last arr)]"
    using assms by (simp add: map_butlast [symmetric] last_map)
  define L where "L = map (\<lambda>x. ?f x @ '','') (butlast arr) @ [?f (last arr)]"
  have Lne: "L \<noteq> []" by (simp add: L_def)
  have two: "replicate 2 CHR '' '' = ''  ''"
    by (simp add: numeral_2_eq_2)
  have "key @ '' = '' @ dump_toml_array_str arr 2
      = (key @ '' = ['') @ ''\<newline>'' @ join ''\<newline>'' L @ ''\<newline>'' @ '']''"
    unfolding dump_toml_array_str_def Let_def two j bl L_def by simp
  also have "\<dots> = join ''\<newline>'' ([key @ '' = [''] @ L @ ['']''])"
    using Lne by (simp add: join_Cons join_snoc)
  finally show ?thesis
    by (simp add: L_def)
qed

lemma author_line_alt:
  "author_line a =
     ''  { name = '' @ quoted (toml_escape (a_name a))
     @ (case a_email a of Some e \<Rightarrow> '', email = '' @ quoted (toml_escape e) | None \<Rightarrow> [])
     @ '' },''"
  by (cases "a_email a") (simp_all add: author_line_def)

lemma split_on_append:
  "split_on c (xs @ c # ys) = split_on c xs @ split_on c ys"
proof (induction xs)
  case Nil
  then show ?case by simp
next
  case (Cons x xs)
  show ?case
  proof (cases "x = c")
    case True
    with Cons show ?thesis by simp
  next
    case False
    obtain p ps where p: "split_on c xs = p # ps"
      using split_on_not_Nil [of c xs] by (cases "split_on c xs") auto
    with False Cons show ?thesis by simp
  qed
qed

lemma split_on_join_lines:
  "ls \<noteq> [] \<Longrightarrow> split_on c (join [c] ls @ [c]) = concat (map (split_on c) ls) @ ['''']"
proof (induction ls rule: list_nonempty_induct)
  case (single l)
  show ?case using split_on_append [of c l "[]"] by simp
next
  case (cons l ls)
  have "join [c] (l # ls) @ [c] = l @ c # (join [c] ls @ [c])"
    using cons.hyps by (simp add: join_Cons)
  then show ?case
    using cons.IH by (simp add: split_on_append)
qed

lemma concat_split_on_id:
  "\<forall>l \<in> set B. c \<notin> set l \<Longrightarrow> concat (map (split_on c) B) = B"
  by (induction B) (simp_all add: split_on_no_sep)

lemma sublist_lines:
  assumes "\<forall>l \<in> set B. c \<notin> set l"
  shows "sublist B (split_on c (join [c] (X @ B @ Y) @ [c]))"
proof (cases "B = []")
  case True
  then show ?thesis by simp
next
  case False
  then have "X @ B @ Y \<noteq> []" by simp
  then have "split_on c (join [c] (X @ B @ Y) @ [c])
      = concat (map (split_on c) (X @ B @ Y)) @ ['''']"
    by (rule split_on_join_lines)
  also have "\<dots> = concat (map (split_on c) X) @ B @ (concat (map (split_on c) Y) @ [''''])"
    using assms by (simp add: concat_split_on_id)
  finally show ?thesis
    by (simp only: sublist_appendI)
qed

lemma newline_replace_char:
  "c \<notin> set s \<Longrightarrow> c \<notin> set new \<Longrightarrow> c \<notin> set (replace_char old new s)"
  by (induction s) (auto simp: replace_char_def)

lemma newline_quoted_escape:
  "CHR 0x0A \<notin> set x \<Longrightarrow> CHR 0x0A \<notin> set (quoted (toml_escape x))"
  by (simp add: quoted_def toml_escape_def newline_replace_char)

lemma array_block_no_newline:
  assumes "arr \<noteq> []" and "\<forall>x \<in> set arr. CHR 0x0A \<notin> set x" and "CHR 0x0A \<notin> set key"
  shows "\<forall>l \<in> set ([key @ '' = [''] @ map (\<lambda>x. ''  '' @ quoted (toml_escape x) @ '','') (butlast arr)
                    @ [''  '' @ quoted (toml_escape (last arr)), '']'']).
           CHR 0x0A \<notin> set l"
proof -
  have b: "CHR 0x0A \<notin> set (quoted (toml_escape x))" if "x \<in> set (butlast arr)" for x
    using that assms(2) by (intro newline_quoted_escape) (auto dest: in_set_butlastD)
  have l: "CHR 0x0A \<notin> set (quoted (toml_escape (last arr)))"
    using assms(1,2) by (intro newline_quoted_escape) simp
  show ?thesis
    using b l assms(3) by auto
qed

lemma authors_block_no_newline:
  assumes "\<forall>a \<in> set as. CHR 0x0A \<notin> set (a_name a) \<and> (\<forall>e. a_email a = Some e \<longrightarrow> CHR 0x0A \<notin> set e)"
  shows "\<forall>l \<in> set ([''authors = ['']
                    @ map (\<lambda>a. ''  { name = '' @ quoted (toml_escape (a_name a))
                               @ (case a_email a of
                                    Some e \<Rightarrow> '', email = '' @ quoted (toml_escape e)
                                  | None \<Rightarrow> [])
                               @ '' },'') as
                    @ ['']'']).
           CHR 0x0A \<notin> set l"
proof -
  have "CHR 0x0A \<notin> set (''  { name = '' @ quoted (toml_escape (a_name a))
                          @ (case a_email a of
                               Some e \<Rightarrow> '', email = '' @ quoted (toml_escape e)
                             | None \<Rightarrow> [])
                          @ '' },'')" if "a \<in> set as" for a
  proof -
    from that assms have n: "CHR 0x0A \<notin> set (quoted (toml_escape (a_name a)))"
      by (intro newline_quoted_escape) simp
    show ?thesis
    proof (cases "a_email a")
      case None
      with n show ?thesis by simp
    next
      case (Some e)
      with that assms have "CHR 0x0A \<notin> set (quoted (toml_escape e))"
        by (intro newline_quoted_escape) simp
      with n Some show ?thesis by simp
    qed
  qed
  then show ?thesis by auto
qed

lemma dev_dependencies_lines:
  assumes "p_optional_dependencies proj = (if dev_deps = [] then [] else [(''dev'', dev_deps)])"
  shows "optional_dependencies_lines proj
      = (if dev_deps = [] then []
         else ['''', ''[project.optional-dependencies]'']
              @ [''dev'' @ '' = '' @ dump_toml_array_str dev_deps 2])"
  by (simp add: optional_dependencies_lines_def assms)

text \<open>
  C5, as stated, fails: the last element of a dependency array has no trailing comma, and
  the \<open>requires\<close> array of the build-system table is written on one line.
\<close>

theorem array_rendering_counterexample:
  \<open>dump_toml_array_str [''alpha 1.0'', ''beta 2.0''] 2
     = ''[\<newline>  "alpha 1.0",\<newline>  "beta 2.0"\<newline>]''
   \<and> build_pep621_toml example_env
       [(''name'', TStr ''demo''),
        (''dependencies'', TDict [(''alpha'', TStr ''1.0''), (''beta'', TStr ''2.0'')])]
       (TDict []) []
     = Inr (''[project]\<newline>name = "demo"\<newline>version = "0.1.0"\<newline>\<newline>dependencies = [\<newline>  "alpha 1.0",\<newline>  "beta 2.0"\<newline>]\<newline>\<newline>[build-system]\<newline>requires = ["poetry-core>=1.9.0"]\<newline>build-backend = "poetry.core.masonry.api"\<newline>'', [])\<close>
  by code_simp

text \<open>
  C5, amended. Whenever a text is returned it is the lines below, each followed by a line
  break. The authors array is an opening line, one line for each author, indented by two
  spaces and ending with a comma, the last one included, and a closing line. The
  \<open>dependencies\<close> array and the array of the \<open>dev\<close> group are an opening line, one line
  for each element with the same indentation of two spaces, and a closing line; every
  element but the last is followed by a comma, the last is not. The \<open>requires\<close> array of
  the build-system table is written on one line, its items separated by a comma and a
  blank. Line breaks are not escaped, so an element that contains one spreads over
  several lines of the text; when no element of an array contains a line break, the
  lines of the array are consecutive lines of the text as it is split at its line
  breaks.
\<close>

theorem array_rendering:
  assumes "build_pep621_toml env poetry build_system ws = Inr (text, ws')"
  shows "\<exists>proj dev_deps scalars license urls scripts rs b.
      build_project env poetry ws = Inr (proj, ws')
    \<and> p_optional_dependencies proj = (if dev_deps = [] then [] else [(''dev'', dev_deps)])
    \<and> scalar_lines proj = Inr scalars \<and> license_lines proj = Inr license
    \<and> urls_lines proj = Inr urls \<and> scripts_lines proj = Inr scripts
    \<and> build_system_lines build_system
        = Inr ['''', ''[build-system]'',
               ''requires = ['' @ join '', '' (map quoted rs) @ '']'',
               ''build-backend = '' @ quoted b]
    \<and> (let authors =
              [''authors = ['']
              @ map (\<lambda>a. ''  { name = '' @ quoted (toml_escape (a_name a))
                         @ (case a_email a of
                              Some e \<Rightarrow> '', email = '' @ quoted (toml_escape e)
                            | None \<Rightarrow> [])
                         @ '' },'') (p_authors proj)
              @ ['']''];
            deps =
              [''dependencies = ['']
              @ map (\<lambda>x. ''  '' @ quoted (toml_escape x) @ '','') (butlast (p_dependencies proj))
              @ [''  '' @ quoted (toml_escape (last (p_dependencies proj))), '']''];
            dev =
              [''dev = ['']
              @ map (\<lambda>x. ''  '' @ quoted (toml_escape x) @ '','') (butlast dev_deps)
              @ [''  '' @ quoted (toml_escape (last dev_deps)), '']'']
        in text = join ''\<newline>''
                    ([''[project]''] @ scalars
                     @ (if p_authors proj = [] then [] else authors)
                     @ license @ urls
                     @ (if p_dependencies proj = [] then [] else [''''] @ deps)
                     @ (if dev_deps = [] then []
                        else ['''', ''[project.optional-dependencies]''] @ dev)
                     @ scripts
                     @ ['''', ''[build-system]'',
                        ''requires = ['' @ join '', '' (map quoted rs) @ '']'',
                        ''build-backend = '' @ quoted b]
                     @ notes_lines ws') @ ''\<newline>''
         \<and> (p_authors proj \<noteq> []
              \<and> (\<forall>a \<in> set (p_authors proj).
                    CHR 0x0A \<notin> set (a_name a)
                    \<and> (\<forall>e. a_email a = Some e \<longrightarrow> CHR 0x0A \<notin> set e))
              \<longrightarrow> sublist authors (split_on CHR 0x0A text))
         \<and> (p_dependencies proj \<noteq> [] \<and> (\<forall>x \<in> set (p_dependencies proj). CHR 0x0A \<notin> set x)
              \<longrightarrow> sublist deps (split_on CHR 0x0A text))
         \<and> (dev_deps \<noteq> [] \<and> (\<forall>x \<in> set dev_deps. CHR 0x0A \<notin> set x)
              \<longrightarrow> sublist dev (split_on CHR 0x0A text)))"
proof -
  from assms obtain proj lines where bp: "build_project env poetry ws = Inr (proj, ws')"
    and rl: "render_lines proj build_system ws' = Inr lines"
    and tx: "text = join ''\<newline>'' lines @ ''\<newline>''"
    unfolding build_pep621_toml_Inr by (elim exE conjE) (rule that)
  from bp obtain dev_deps where
    po: "p_optional_dependencies proj = (if dev_deps \<noteq> [] then [(''dev'', dev_deps)] else [])"
    unfolding build_project_Inr by (elim exE conjE) (rule that, simp)
  have po': "p_optional_dependencies proj = (if dev_deps = [] then [] else [(''dev'', dev_deps)])"
    using po by simp
  from rl obtain scalars license urls scripts build where
    sc: "scalar_lines proj = Inr scalars" and li: "license_lines proj = Inr license"
    and ur: "urls_lines proj = Inr urls" and sr: "scripts_lines proj = Inr scripts"
    and bu: "build_system_lines build_system = Inr build"
    and lines: "lines = [''[project]''] @ scalars @ authors_lines proj @ license @ urls
                   @ dependencies_lines proj @ optional_dependencies_lines proj @ scripts
                   @ build @ notes_lines ws'"
    unfolding render_lines_Inr by (elim exE conjE) (rule that)
  from build_system_lines_Inr [OF bu] obtain rs b where
    bs: "build = ['''', ''[build-system]'',
               ''requires = ['' @ join '', '' (map quoted rs) @ '']'',
               ''build-backend = '' @ quoted b]"
    by (elim exE conjE) (rule that)
  define AU where "AU =
      [''authors = ['']
      @ map (\<lambda>a. ''  { name = '' @ quoted (toml_escape (a_name a))
                 @ (case a_email a of
                      Some e \<Rightarrow> '', email = '' @ quoted (toml_escape e)
                    | None \<Rightarrow> [])
                 @ '' },'') (p_authors proj)
      @ ['']'']"
  define DB where "DB =
      [''dependencies = ['']
      @ map (\<lambda>x. ''  '' @ quoted (toml_escape x) @ '','') (butlast (p_dependencies proj))
      @ [''  '' @ quoted (toml_escape (last (p_dependencies proj))), '']'']"
  define OB where "OB =
      [''dev = ['']
      @ map (\<lambda>x. ''  '' @ quoted (toml_escape x) @ '','') (butlast dev_deps)
      @ [''  '' @ quoted (toml_escape (last dev_deps)), '']'']"
  define A1 where "A1 = [''[project]''] @ scalars"
  define A2 where "A2 = license @ urls"
  define A3 where "A3 = scripts @ build @ notes_lines ws'"
  define hdr where "hdr = ['''', ''[project.optional-dependencies]'']"
  define AUi where "AUi = (if p_authors proj = [] then [] else AU)"
  define DBi where "DBi = (if p_dependencies proj = [] then [] else [''''] @ DB)"
  define OBi where "OBi = (if dev_deps = [] then [] else hdr @ OB)"
  have DBne: "DB \<noteq> []" and OBne: "OB \<noteq> []"
    by (simp_all add: DB_def OB_def)
  have au: "authors_lines proj = AUi"
    unfolding AUi_def AU_def authors_lines_def
    by (simp add: author_line_alt [abs_def])
  have dl: "dependencies_lines proj
      = (if p_dependencies proj = [] then [] else [''''] @ [join ''\<newline>'' DB])"
  proof (cases "p_dependencies proj = []")
    case True
    then show ?thesis by (simp add: dependencies_lines_def)
  next
    case False
    have "''dependencies = '' @ dump_toml_array_str (p_dependencies proj) 2
        = ''dependencies'' @ '' = '' @ dump_toml_array_str (p_dependencies proj) 2"
      by simp
    also have "\<dots> = join ''\<newline>'' DB"
      unfolding DB_def using key_array_lines [OF False, of "''dependencies''"] by simp
    finally show ?thesis
      using False by (simp add: dependencies_lines_def)
  qed
  have ol: "optional_dependencies_lines proj
      = (if dev_deps = [] then [] else hdr @ [join ''\<newline>'' OB])"
  proof (cases "dev_deps = []")
    case True
    then show ?thesis by (simp add: dev_dependencies_lines [OF po'])
  next
    case False
    have "''dev'' @ '' = '' @ dump_toml_array_str dev_deps 2 = join ''\<newline>'' OB"
      unfolding OB_def using key_array_lines [OF False, of "''dev''"] by simp
    then show ?thesis
      using False by (simp only: dev_dependencies_lines [OF po'] hdr_def if_False)
  qed
  have "join ''\<newline>'' lines
      = join ''\<newline>'' ((A1 @ AUi @ A2)
          @ (if p_dependencies proj = [] then [] else [''''] @ [join ''\<newline>'' DB])
          @ ((if dev_deps = [] then [] else hdr @ [join ''\<newline>'' OB]) @ A3))"
    unfolding lines au dl ol A1_def A2_def A3_def by simp
  also have "\<dots> = join ''\<newline>'' ((A1 @ AUi @ A2) @ DBi
          @ ((if dev_deps = [] then [] else hdr @ [join ''\<newline>'' OB]) @ A3))"
    unfolding DBi_def by (rule join_flatten_if) (rule DBne)
  also have "\<dots> = join ''\<newline>'' ((A1 @ AUi @ A2 @ DBi)
          @ (if dev_deps = [] then [] else hdr @ [join ''\<newline>'' OB]) @ A3)"
    by simp
  also have "\<dots> = join ''\<newline>'' ((A1 @ AUi @ A2 @ DBi) @ OBi @ A3)"
    unfolding OBi_def by (rule join_flatten_if) (rule OBne)
  finally have jl: "join ''\<newline>'' lines = join ''\<newline>'' (A1 @ AUi @ A2 @ DBi @ OBi @ A3)"
    by simp
  have t: "text = join ''\<newline>'' (A1 @ AUi @ A2 @ DBi @ OBi @ A3) @ ''\<newline>''"
    unfolding tx jl ..
  have s1: "sublist AU (split_on CHR 0x0A text)"
    if "p_authors proj \<noteq> []
        \<and> (\<forall>a \<in> set (p_authors proj).
              CHR 0x0A \<notin> set (a_name a) \<and> (\<forall>e. a_email a = Some e \<longrightarrow> CHR 0x0A \<notin> set e))"
  proof -
    from that have "\<forall>l \<in> set AU. CHR 0x0A \<notin> set l"
      unfolding AU_def by (intro authors_block_no_newline) simp
    then have "sublist AU (split_on CHR 0x0A
        (join [CHR 0x0A] (A1 @ AU @ (A2 @ DBi @ OBi @ A3)) @ [CHR 0x0A]))"
      by (rule sublist_lines)
    moreover from that have "AUi = AU" by (simp add: AUi_def)
    ultimately show ?thesis
      unfolding t by simp
  qed
  have s2: "sublist DB (split_on CHR 0x0A text)"
    if "p_dependencies proj \<noteq> [] \<and> (\<forall>x \<in> set (p_dependencies proj). CHR 0x0A \<notin> set x)"
  proof -
    from that have "\<forall>l \<in> set DB. CHR 0x0A \<notin> set l"
      unfolding DB_def using array_block_no_newline [of "p_dependencies proj" "''dependencies''"]
      by simp
    then have "sublist DB (split_on CHR 0x0A
        (join [CHR 0x0A] ((A1 @ AUi @ A2 @ ['''']) @ DB @ (OBi @ A3)) @ [CHR 0x0A]))"
      by (rule sublist_lines)
    moreover from that have "DBi = [''''] @ DB" by (simp add: DBi_def)
    ultimately show ?thesis
      unfolding t by simp
  qed
  have s3: "sublist OB (split_on CHR 0x0A text)"
    if "dev_deps \<noteq> [] \<and> (\<forall>x \<in> set dev_deps. CHR 0x0A \<notin> set x)"
  proof -
    from that have "\<forall>l \<in> set OB. CHR 0x0A \<notin> set l"
      unfolding OB_def using array_block_no_newline [of dev_deps "''dev''"]
      by simp
    then have "sublist OB (split_on CHR 0x0A
        (join [CHR 0x0A] ((A1 @ AUi @ A2 @ DBi @ hdr) @ OB @ A3) @ [CHR 0x0A]))"
      by (rule sublist_lines)
    moreover from that have "OBi = hdr @ OB" by (simp add: OBi_def)
    ultimately show ?thesis
      unfolding t by simp
  qed
  have t': "text = join ''\<newline>''
                    ([''[project]''] @ scalars
                     @ (if p_authors proj = [] then [] else AU)
                     @ license @ urls
                     @ (if p_dependencies proj = [] then [] else [''''] @ DB)
                     @ (if dev_deps = [] then []
                        else ['''', ''[project.optional-dependencies]''] @ OB)
                     @ scripts
                     @ ['''', ''[build-system]'',
                        ''requires = ['' @ join '', '' (map quoted rs) @ '']'',
                        ''build-backend = '' @ quoted b]
                     @ notes_lines ws') @ ''\<newline>''"
    unfolding t A1_def A2_def A3_def AUi_def DBi_def OBi_def hdr_def bs by simp
  show ?thesis
    apply (rule exI [of _ proj], rule exI [of _ dev_deps], rule exI [of _ scalars],
        rule exI [of _ license], rule exI [of _ urls], rule exI [of _ scripts],
        rule exI [of _ rs], rule exI [of _ b])
    unfolding Let_def
    apply (intro conjI impI)
              apply (rule bp)
             apply (rule po')
            apply (rule sc)
           apply (rule li)
          apply (rule ur)
         apply (rule sr)
        apply (rule bu [unfolded bs])
       apply (rule t' [unfolded AU_def DB_def OB_def])
      apply (erule s1 [unfolded AU_def])
     apply (erule s2 [unfolded DB_def])
    apply (erule s3 [unfolded OB_def])
    done
qed

text \<open>A document with two authors, two dependencies and a \<open>dev\<close> group.\<close>

theorem array_rendering_witness:
  \<open>build_pep621_toml example_env
     [(''name'', TStr ''demo''),
      (''authors'', TList [TStr ''Jane Doe <jane@example.com>'', TStr ''Bob'']),
      (''dependencies'', TDict [(''alpha'', TStr ''1.0''), (''beta'', TStr ''2.0'')]),
      (''group'', TDict [(''dev'', TDict [(''dependencies'', TDict [(''pytest'', TStr ''~7.4'')])])])]
     (TDict []) []
   = Inr (''[project]\<newline>name = "demo"\<newline>version = "0.1.0"\<newline>authors = [\<newline>  { name = "Jane Doe", email = "jane@example.com" },\<newline>  { name = "Bob" },\<newline>]\<newline>\<newline>dependencies = [\<newline>  "alpha 1.0",\<newline>  "beta 2.0"\<newline>]\<newline>\<newline>[project.optional-dependencies]\<newline>dev = [\<newline>  "pytest >=7.4,<7.5"\<newline>]\<newline>\<newline>[build-system]\<newline>requires = ["poetry-core>=1.9.0"]\<newline>build-backend = "poetry.core.masonry.api"\<newline>'', [])
   \<and> sublist [''authors = ['',
               ''  { name = "Jane Doe", email = "jane@example.com" },'',
               ''  { name = "Bob" },'',
               '']'']
        (split_on CHR 0x0A ''[project]\<newline>name = "demo"\<newline>version = "0.1.0"\<newline>authors = [\<newline>  { name = "Jane Doe", email = "jane@example.com" },\<newline>  { name = "Bob" },\<newline>]\<newline>\<newline>dependencies = [\<newline>  "alpha 1.0",\<newline>  "beta 2.0"\<newline>]\<newline>\<newline>[project.optional-dependencies]\<newline>dev = [\<newline>  "pytest >=7.4,<7.5"\<newline>]\<newline>\<newline>[build-system]\<newline>requires = ["poetry-core>=1.9.0"]\<newline>build-backend = "poetry.core.masonry.api"\<newline>'')
   \<and> sublist [''dependencies = ['', ''  "alpha 1.0",'', ''  "beta 2.0"'', '']'']
        (split_on CHR 0x0A ''[project]\<newline>name = "demo"\<newline>version = "0.1.0"\<newline>authors = [\<newline>  { name = "Jane Doe", email = "jane@example.com" },\<newline>  { name = "Bob" },\<newline>]\<newline>\<newline>dependencies = [\<newline>  "alpha 1.0",\<newline>  "beta 2.0"\<newline>]\<newline>\<newline>[project.optional-dependencies]\<newline>dev = [\<newline>  "pytest >=7.4,<7.5"\<newline>]\<newline>\<newline>[build-system]\<newline>requires = ["poetry-core>=1.9.0"]\<newline>build-backend = "poetry.core.masonry.api"\<newline>'')
   \<and> sublist [''dev = ['', ''  "pytest >=7.4,<7.5"'', '']'']
        (split_on CHR 0x0A ''[project]\<newline>name = "demo"\<newline>version = "0.1.0"\<newline>authors = [\<newline>  { name = "Jane Doe", email = "jane@example.com" },\<newline>  { name = "Bob" },\<newline>]\<newline>\<newline>dependencies = [\<newline>  "alpha 1.0",\<newline>  "beta 2.0"\<newline>]\<newline>\<newline>[project.optional-dependencies]\<newline>dev = [\<newline>  "pytest >=7.4,<7.5"\<newline>]\<newline>\<newline>[build-system]\<newline>requires = ["poetry-core>=1.9.0"]\<newline>build-backend = "poetry.core.masonry.api"\<newline>'')\<close>
proof -
  define doc where "doc =
     [(''name'', TStr ''demo''),
      (''authors'', TList [TStr ''Jane Doe <jane@example.com>'', TStr ''Bob'']),
      (''dependencies'', TDict [(''alpha'', TStr ''1.0''), (''beta'', TStr ''2.0'')]),
      (''group'', TDict [(''dev'', TDict [(''dependencies'', TDict [(''pytest'', TStr ''~7.4'')])])])]"
  define out where \<open>out = ''[project]\<newline>name = "demo"\<newline>version = "0.1.0"\<newline>authors = [\<newline>  { name = "Jane Doe", email = "jane@example.com" },\<newline>  { name = "Bob" },\<newline>]\<newline>\<newline>dependencies = [\<newline>  "alpha 1.0",\<newline>  "beta 2.0"\<newline>]\<newline>\<newline>[project.optional-dependencies]\<newline>dev = [\<newline>  "pytest >=7.4,<7.5"\<newline>]\<newline>\<newline>[build-system]\<newline>requires = ["poetry-core>=1.9.0"]\<newline>build-backend = "poetry.core.masonry.api"\<newline>''\<close>
  define P where "P =
        \<lparr>p_name = TStr ''demo'', p_version = TStr ''0.1.0'', p_description = None,
         p_readme = None,
         p_authors = [\<lparr>a_name = ''Jane Doe'', a_email = Some ''jane@example.com''\<rparr>,
                      \<lparr>a_name = ''Bob'', a_email = None\<rparr>],
         p_license = None, p_urls = [], p_dependencies = [''alpha 1.0'', ''beta 2.0''],
         p_optional_dependencies = [(''dev'', [''pytest >=7.4,<7.5''])], p_scripts = None\<rparr>"
  have h: "build_pep621_toml example_env doc (TDict []) [] = Inr (out, [])"
    unfolding doc_def out_def by code_simp
  have bpP: "build_project example_env doc [] = Inr (P, [])"
    unfolding doc_def P_def by code_simp
  from array_rendering [OF h] obtain proj dev_deps where
    bp: "build_project example_env doc [] = Inr (proj, [])"
    and po: "p_optional_dependencies proj = (if dev_deps = [] then [] else [(''dev'', dev_deps)])"
    and s1: "p_authors proj \<noteq> []
              \<and> (\<forall>a \<in> set (p_authors proj).
                    CHR 0x0A \<notin> set (a_name a)
                    \<and> (\<forall>e. a_email a = Some e \<longrightarrow> CHR 0x0A \<notin> set e))
              \<longrightarrow> sublist
                    ([''authors = ['']
                     @ map (\<lambda>a. ''  { name = '' @ quoted (toml_escape (a_name a))
                                @ (case a_email a of
                                     Some e \<Rightarrow> '', email = '' @ quoted (toml_escape e)
                                   | None \<Rightarrow> [])
                                @ '' },'') (p_authors proj)
                     @ ['']'']) (split_on CHR 0x0A out)"
    and s2: "p_dependencies proj \<noteq> [] \<and> (\<forall>x \<in> set (p_dependencies proj). CHR 0x0A \<notin> set x)
              \<longrightarrow> sublist
                    ([''dependencies = ['']
                     @ map (\<lambda>x. ''  '' @ quoted (toml_escape x) @ '','')
                         (butlast (p_dependencies proj))
                     @ [''  '' @ quoted (toml_escape (last (p_dependencies proj))), '']''])
                    (split_on CHR 0x0A out)"
    and s3: "dev_deps \<noteq> [] \<and> (\<forall>x \<in> set dev_deps. CHR 0x0A \<notin> set x)
              \<longrightarrow> sublist
                    ([''dev = ['']
                     @ map (\<lambda>x. ''  '' @ quoted (toml_escape x) @ '','') (butlast dev_deps)
                     @ [''  '' @ quoted (toml_escape (last dev_deps)), '']''])
                    (split_on CHR 0x0A out)"
    unfolding Let_def by (elim exE conjE) (rule that)
  from bp bpP have pj: "proj = P" by simp
  have dv: "dev_deps = [''pytest >=7.4,<7.5'']"
    using po unfolding pj P_def by (simp split: if_splits)
  have e1: \<open>[''authors = ['']
             @ map (\<lambda>a. ''  { name = '' @ quoted (toml_escape (a_name a))
                        @ (case a_email a of
                             Some e \<Rightarrow> '', email = '' @ quoted (toml_escape e)
                           | None \<Rightarrow> [])
                        @ '' },'') (p_authors P)
             @ ['']'']
        = [''authors = ['',
           ''  { name = "Jane Doe", email = "jane@example.com" },'',
           ''  { name = "Bob" },'',
           '']'']\<close>
    unfolding P_def by code_simp
  have e2: \<open>[''dependencies = ['']
             @ map (\<lambda>x. ''  '' @ quoted (toml_escape x) @ '','') (butlast (p_dependencies P))
             @ [''  '' @ quoted (toml_escape (last (p_dependencies P))), '']'']
        = [''dependencies = ['', ''  "alpha 1.0",'', ''  "beta 2.0"'', '']'']\<close>
    unfolding P_def by code_simp
  have e3: \<open>[''dev = ['']
             @ map (\<lambda>x. ''  '' @ quoted (toml_escape x) @ '','') (butlast [''pytest >=7.4,<7.5''])
             @ [''  '' @ quoted (toml_escape (last [''pytest >=7.4,<7.5''])), '']'']
        = [''dev = ['', ''  "pytest >=7.4,<7.5"'', '']'']\<close>
    by code_simp
  have a1: "p_authors P \<noteq> []
              \<and> (\<forall>a \<in> set (p_authors P).
                    CHR 0x0A \<notin> set (a_name a)
                    \<and> (\<forall>e. a_email a = Some e \<longrightarrow> CHR 0x0A \<notin> set e))"
    by (simp add: P_def)
  have a2: "p_dependencies P \<noteq> [] \<and> (\<forall>x \<in> set (p_dependencies P). CHR 0x0A \<notin> set x)"
    by (simp add: P_def)
  have a3: "[''pytest >=7.4,<7.5''] \<noteq> [] \<and> (\<forall>x \<in> set [''pytest >=7.4,<7.5'']. CHR 0x0A \<notin> set x)"
    by simp
  note r1 = s1 [unfolded pj, THEN mp, OF a1, unfolded e1]
  note r2 = s2 [unfolded pj, THEN mp, OF a2, unfolded e2]
  note r3 = s3 [unfolded dv, THEN mp, OF a3, unfolded e3]
  show ?thesis
    using h r1 r2 r3 unfolding doc_def out_def by (intro conjI)
qed

end
